theory Spec2Isabelle
  imports Main "HOL-Library.Char_ord" "HOL-Library.List_Lexorder"
begin

section \<open>Strings\<close>

text \<open>
  A TypeScript string is a sequence of UTF-16 code units. The model uses \<^typ>\<open>string\<close>,
  whose characters are the code units below 256 (ASCII and the Latin-1 supplement), and
  defines for that range the string operations the repository relies on:
  \<^verbatim>\<open>String.prototype.trim\<close>, \<^verbatim>\<open>String.prototype.toLowerCase\<close>, the conversion of
  a number to a string in a template literal, and the two regular expressions of
  \<^verbatim>\<open>src/lib/photos.ts\<close>.
\<close>

definition isWhiteSpace :: "char \<Rightarrow> bool" where
  \<comment> \<open>WhiteSpace and LineTerminator of ECMAScript below 256:
      TAB, LF, VT, FF, CR, SPACE and NO-BREAK SPACE.\<close>
  "isWhiteSpace c \<longleftrightarrow> c \<in> {CHR 0x09, CHR 0x0A, CHR 0x0B, CHR 0x0C, CHR 0x0D, CHR 0x20, CHR 0xA0}"

definition trim :: "string \<Rightarrow> string" where
  "trim s = rev (dropWhile isWhiteSpace (rev (dropWhile isWhiteSpace s)))"

definition isUpperCase :: "char \<Rightarrow> bool" where
  \<comment> \<open>The code units below 256 that \<^verbatim>\<open>toLowerCase\<close> changes: A-Z, and the Latin-1
      capitals U+00C0-U+00DE except the multiplication sign U+00D7.\<close>
  "isUpperCase c \<longleftrightarrow>
     (CHR ''A'' \<le> c \<and> c \<le> CHR ''Z'') \<or> (CHR 0xC0 \<le> c \<and> c \<le> CHR 0xDE \<and> c \<noteq> CHR 0xD7)"

definition toLowerCase_unit :: "char \<Rightarrow> char" where
  \<comment> \<open>Each of these capitals has bit 5 clear, and its small letter is 32 above it.\<close>
  "toLowerCase_unit c =
     (if isUpperCase c
      then (case c of Char b0 b1 b2 b3 b4 b5 b6 b7 \<Rightarrow> Char b0 b1 b2 b3 b4 True b6 b7)
      else c)"

definition toLowerCase :: "string \<Rightarrow> string" where
  "toLowerCase s = map toLowerCase_unit s"

definition safe_char :: "char \<Rightarrow> bool" where
  \<comment> \<open>The character class \<^verbatim>\<open>[a-z0-9.\-_]\<close>.\<close>
  "safe_char c \<longleftrightarrow>
     (CHR ''a'' \<le> c \<and> c \<le> CHR ''z'') \<or> (CHR ''0'' \<le> c \<and> c \<le> CHR ''9'') \<or>
     c = CHR ''.'' \<or> c = CHR ''-'' \<or> c = CHR ''_''"

text \<open>
  \<^verbatim>\<open>s.replace(/[^a-z0-9.\-_]+/g, '-')\<close>: scanning from the left, every match of the
  pattern is a maximal run of one or more characters outside the class (the quantifier
  \<^verbatim>\<open>+\<close> is greedy), and each match is replaced by one hyphen.
\<close>

function replace_unsafe_runs :: "string \<Rightarrow> string" where
  "replace_unsafe_runs [] = []"
| "replace_unsafe_runs (c # cs) =
     (if safe_char c then c # replace_unsafe_runs cs
      else CHR ''-'' # replace_unsafe_runs (dropWhile (\<lambda>d. \<not> safe_char d) cs))"
  by pat_completeness auto
termination
  by (relation "measure length") (auto simp: length_dropWhile_le le_imp_less_Suc)

definition canonicalize :: "char \<Rightarrow> char" where
  \<comment> \<open>Case folding of the flag \<^verbatim>\<open>i\<close> (without \<^verbatim>\<open>u\<close>): a code unit is compared through its
      upper case, and a code unit from 128 on is never folded to an ASCII one, so only
      a-z matter for matching an ASCII pattern.\<close>
  "canonicalize c =
     (if CHR ''a'' \<le> c \<and> c \<le> CHR ''z''
      then (case c of Char b0 b1 b2 b3 b4 b5 b6 b7 \<Rightarrow> Char b0 b1 b2 b3 b4 False b6 b7)
      else c)"

fun occurs_in :: "string \<Rightarrow> string \<Rightarrow> bool" where
  "occurs_in pat [] \<longleftrightarrow> pat = []"
| "occurs_in pat (c # cs) \<longleftrightarrow> take (length pat) (c # cs) = pat \<or> occurs_in pat cs"

definition not_found_test :: "string \<Rightarrow> bool" where
  \<comment> \<open>\<^verbatim>\<open>/not found/i.test(message)\<close>\<close>
  "not_found_test message \<longleftrightarrow> occurs_in ''NOT FOUND'' (map canonicalize message)"

fun digits :: "nat \<Rightarrow> string" where
  "digits n =
     (if n < 10 then [''0123456789'' ! n]
      else digits (n div 10) @ [''0123456789'' ! (n mod 10)])"

declare digits.simps [simp del]

definition number_toString :: "int \<Rightarrow> string" where
  \<comment> \<open>An integer-valued number in a template literal. \<^verbatim>\<open>Date.now()\<close> stays below
      \<open>10^21\<close> in absolute value, where the rendering is plain decimal.\<close>
  "number_toString n = (if n < 0 then CHR ''-'' # digits (nat (- n)) else digits (nat n))"

text \<open>\<^verbatim>\<open>crypto.randomUUID()\<close> returns 36 characters: lowercase hexadecimal digits in
  groups of 8, 4, 4, 4 and 12, with hyphens between the groups.\<close>

definition isHexDigit :: "char \<Rightarrow> bool" where
  "isHexDigit c \<longleftrightarrow> (CHR ''0'' \<le> c \<and> c \<le> CHR ''9'') \<or> (CHR ''a'' \<le> c \<and> c \<le> CHR ''f'')"

definition is_uuid :: "string \<Rightarrow> bool" where
  "is_uuid s \<longleftrightarrow>
     list_all2 (\<lambda>t c. if t = CHR ''-'' then c = CHR ''-'' else isHexDigit c)
       ''xxxxxxxx-xxxx-xxxx-xxxx-xxxxxxxxxxxx'' s"

section \<open>Data model\<close>

text \<open>\<^verbatim>\<open>src/types/photo.ts\<close>: the form input and the application-level entity.\<close>

record PhotoMetadataInput =
  title :: string
  caption :: string
  tags :: "string list"
  shot_date :: string

record Photo =
  id :: string
  title :: string
  caption :: "string option"
  tags :: "string list"
  shot_date :: string
  image_path :: string
  image_url :: string
  created_at :: string
  updated_at :: string
  deleted_at :: "string option"

text \<open>\<^verbatim>\<open>src/lib/photos.ts\<close>: a row of the table as the client receives it.\<close>

record PhotoRow =
  id :: string
  title :: string
  caption :: "string option"
  tags :: "string list option"
  shot_date :: string
  image_path :: string
  created_at :: string
  updated_at :: string
  deleted_at :: "string option"

text \<open>The object literal that \<^verbatim>\<open>cleanMetadata\<close> returns: the caption may be \<^verbatim>\<open>null\<close>.\<close>

record MetadataPayload =
  title :: string
  caption :: "string option"
  tags :: "string list"
  shot_date :: string

text \<open>The part of a browser \<^verbatim>\<open>File\<close> that \<^verbatim>\<open>uploadPhoto\<close> reads, and its bytes.\<close>

record File =
  name :: string
  type :: string
  bytes :: "nat list"

text \<open>Every failure of the repository is \<^verbatim>\<open>throw new Error(message)\<close>.\<close>

datatype error = Error string

datatype mode = active | trash

section \<open>The remote data store\<close>

text \<open>
  The table \<^verbatim>\<open>public.photos\<close> and the bucket \<^verbatim>\<open>photos\<close> live in the hosted backend,
  reached through the client library; neither is code of this repository. The state of
  the remote is the list of rows and the map from storage keys to objects.
\<close>

record Remote =
  photos :: "PhotoRow list"
  bucket :: "string \<rightharpoonup> File"

text \<open>
  What one call of a repository operation finds in its environment: the build-time
  configuration, the clock and random source of the browser, the clock and random source
  of the database server, and for each kind of request whether the remote rejects it
  (row-level security, transport, validation) and with which message.
\<close>

record Env =
  isSupabaseConfigured :: bool
  getPublicUrl :: "string \<Rightarrow> string"
  Date_now :: int
  toISOString_now :: string
  randomUUID :: string
  gen_random_uuid :: string
  now :: string
  select_fault :: "string option"
  upload_fault :: "string option"
  remove_fault :: "string option"
  insert_fault :: "string option"
  update_fault :: "string option"
  delete_fault :: "string option"

text \<open>
  The requests of the client library against the table and the bucket are modelled from
  sections 4.1, 6 and 7 of the specification and from
  \<^verbatim>\<open>supabase/migrations/20260220_init.sql\<close> (the columns, the primary key \<^verbatim>\<open>id\<close>, the
  unique \<^verbatim>\<open>image_path\<close>, the defaults of \<^verbatim>\<open>id\<close>, \<^verbatim>\<open>created_at\<close>, \<^verbatim>\<open>updated_at\<close>, the trigger
  that refreshes \<^verbatim>\<open>updated_at\<close> on every update). A request answers with an error message
  or with its data, and never throws. Who may do what (the policies) is not modelled:
  a rejection is one of the faults of the environment.
\<close>

definition precedes :: "PhotoRow \<Rightarrow> PhotoRow \<Rightarrow> bool" where
  \<comment> \<open>Modelled from the spec: \<^verbatim>\<open>ORDER BY shot_date DESC, created_at DESC\<close>; both columns
      are \<^verbatim>\<open>NOT NULL\<close>. The client sees a date as \<^verbatim>\<open>YYYY-MM-DD\<close> and a timestamp in
      ISO 8601, compared here as strings.\<close>
  "precedes a b \<longleftrightarrow>
     PhotoRow.shot_date b < PhotoRow.shot_date a \<or>
     (PhotoRow.shot_date a = PhotoRow.shot_date b \<and> PhotoRow.created_at b \<le> PhotoRow.created_at a)"

fun insert_row :: "PhotoRow \<Rightarrow> PhotoRow list \<Rightarrow> PhotoRow list" where
  "insert_row x [] = [x]"
| "insert_row x (y # ys) = (if precedes x y then x # y # ys else y # insert_row x ys)"

definition order_rows :: "PhotoRow list \<Rightarrow> PhotoRow list" where
  \<comment> \<open>\<^verbatim>\<open>.order('shot_date', { ascending: false }).order('created_at', { ascending: false })\<close>\<close>
  "order_rows rows = foldr insert_row rows []"

definition range_rows :: "nat \<Rightarrow> nat \<Rightarrow> PhotoRow list \<Rightarrow> PhotoRow list" where
  \<comment> \<open>Modelled from the spec: \<^verbatim>\<open>.range(from, to)\<close>, both ends inclusive and zero-based,
      that is offset \<open>from\<close> and limit \<open>to - from + 1\<close>. The feed calls it with
      \<open>from \<le> to\<close>.\<close>
  "range_rows from to rows = take (Suc to - from) (drop from rows)"

definition run_select :: "Env \<Rightarrow> PhotoRow list \<Rightarrow> string + PhotoRow list" where
  \<comment> \<open>awaiting a \<^verbatim>\<open>select\<close>: \<^verbatim>\<open>{ data, error }\<close>\<close>
  "run_select env rows = (case select_fault env of Some message \<Rightarrow> Inl message | None \<Rightarrow> Inr rows)"

definition storage_upload :: "Env \<Rightarrow> string \<Rightarrow> File \<Rightarrow> Remote \<Rightarrow> string option \<times> Remote" where
  \<comment> \<open>Modelled from the spec: \<^verbatim>\<open>storage.from(PHOTOS_BUCKET).upload(path, file, { upsert: false, ... })\<close>;
      an upload fails if the key already exists and never overwrites.\<close>
  "storage_upload env path file r =
     (case upload_fault env of
        Some message \<Rightarrow> (Some message, r)
      | None \<Rightarrow>
          if bucket r path \<noteq> None then (Some ''The resource already exists'', r)
          else (None, r\<lparr>bucket := (bucket r)(path \<mapsto> file)\<rparr>))"

definition storage_remove :: "Env \<Rightarrow> string \<Rightarrow> Remote \<Rightarrow> string option \<times> Remote" where
  \<comment> \<open>Modelled from the spec: \<^verbatim>\<open>storage.from(PHOTOS_BUCKET).remove([path])\<close>. Section 7
      of the specification has a not-found failure for a targeted object that does not
      exist; the repository treats that answer and a success alike.\<close>
  "storage_remove env path r =
     (case remove_fault env of
        Some message \<Rightarrow> (Some message, r)
      | None \<Rightarrow>
          if bucket r path = None then (Some ''Object not found'', r)
          else (None, r\<lparr>bucket := (bucket r)(path := None)\<rparr>))"

definition db_insert :: "Env \<Rightarrow> MetadataPayload \<Rightarrow> string \<Rightarrow> Remote \<Rightarrow> (string + PhotoRow) \<times> Remote" where
  \<comment> \<open>Modelled from the spec: \<^verbatim>\<open>.insert({ ...payload, image_path }).select(PHOTO_COLUMNS).single()\<close>;
      the server assigns \<open>id\<close>, \<open>created_at\<close> and \<open>updated_at\<close>, and \<open>deleted_at\<close> starts null.\<close>
  "db_insert env payload path r =
     (case insert_fault env of
        Some message \<Rightarrow> (Inl message, r)
      | None \<Rightarrow>
          if path \<in> set (map PhotoRow.image_path (photos r))
          then (Inl ''duplicate key value violates unique constraint photos_image_path_key'', r)
          else if gen_random_uuid env \<in> set (map PhotoRow.id (photos r))
          then (Inl ''duplicate key value violates unique constraint photos_pkey'', r)
          else
            let row = \<lparr> PhotoRow.id = gen_random_uuid env,
                        PhotoRow.title = MetadataPayload.title payload,
                        PhotoRow.caption = MetadataPayload.caption payload,
                        PhotoRow.tags = Some (MetadataPayload.tags payload),
                        PhotoRow.shot_date = MetadataPayload.shot_date payload,
                        PhotoRow.image_path = path,
                        PhotoRow.created_at = now env,
                        PhotoRow.updated_at = now env,
                        PhotoRow.deleted_at = None \<rparr>
            in (Inr row, r\<lparr>photos := photos r @ [row]\<rparr>))"

definition touch_updated_at :: "Env \<Rightarrow> PhotoRow \<Rightarrow> PhotoRow" where
  \<comment> \<open>the trigger \<^verbatim>\<open>set_photos_updated_at\<close>\<close>
  "touch_updated_at env row = row\<lparr>PhotoRow.updated_at := now env\<rparr>"

definition db_update ::
  "Env \<Rightarrow> (PhotoRow \<Rightarrow> PhotoRow) \<Rightarrow> string \<Rightarrow> Remote \<Rightarrow> (string + PhotoRow list) \<times> Remote" where
  \<comment> \<open>Modelled from the spec: \<^verbatim>\<open>.update(values).eq('id', photoId)\<close>. \<open>values\<close> is the
      assignment to the columns named in the object; the answer carries the rows that were
      updated. Matching no row is not an error.\<close>
  "db_update env values photoId r =
     (case update_fault env of
        Some message \<Rightarrow> (Inl message, r)
      | None \<Rightarrow>
          (Inr (map (\<lambda>row. touch_updated_at env (values row))
                  (filter (\<lambda>row. PhotoRow.id row = photoId) (photos r))),
           r\<lparr>photos :=
               map (\<lambda>row. if PhotoRow.id row = photoId then touch_updated_at env (values row) else row)
                 (photos r)\<rparr>))"

definition db_update_single ::
  "Env \<Rightarrow> (PhotoRow \<Rightarrow> PhotoRow) \<Rightarrow> string \<Rightarrow> Remote \<Rightarrow> (string + PhotoRow) \<times> Remote" where
  \<comment> \<open>Modelled from the spec: \<^verbatim>\<open>.update(values).eq('id', photoId).select(PHOTO_COLUMNS).single()\<close>;
      anything but exactly one row is an error (the update fails if the row does not
      exist), and the statement is rolled back.\<close>
  "db_update_single env values photoId r =
     (case db_update env values photoId r of
        (Inl message, r') \<Rightarrow> (Inl message, r')
      | (Inr [row], r') \<Rightarrow> (Inr row, r')
      | (Inr _, r') \<Rightarrow> (Inl ''JSON object requested, multiple (or no) rows returned'', r))"

definition db_delete :: "Env \<Rightarrow> string \<Rightarrow> Remote \<Rightarrow> string option \<times> Remote" where
  \<comment> \<open>Modelled from the spec: \<^verbatim>\<open>.delete().eq('id', photoId)\<close>\<close>
  "db_delete env photoId r =
     (case delete_fault env of
        Some message \<Rightarrow> (Some message, r)
      | None \<Rightarrow> (None, r\<lparr>photos := filter (\<lambda>row. PhotoRow.id row \<noteq> photoId) (photos r)\<rparr>))"

section \<open>The photo repository: \<^verbatim>\<open>src/lib/photos.ts\<close>\<close>

definition getSupabaseClient :: "Env \<Rightarrow> error + unit" where
  "getSupabaseClient env =
     (if \<not> isSupabaseConfigured env
      then Inl (Error ''Supabase is not configured. Set VITE_SUPABASE_URL and VITE_SUPABASE_ANON_KEY.'')
      else Inr ())"

definition mapPhotoRow :: "Env \<Rightarrow> PhotoRow \<Rightarrow> error + Photo" where
  "mapPhotoRow env row =
     (case getSupabaseClient env of
        Inl e \<Rightarrow> Inl e
      | Inr client \<Rightarrow>
          Inr \<lparr> Photo.id = PhotoRow.id row,
                Photo.title = PhotoRow.title row,
                Photo.caption = PhotoRow.caption row,
                Photo.tags = (case PhotoRow.tags row of None \<Rightarrow> [] | Some ts \<Rightarrow> ts),
                Photo.shot_date = PhotoRow.shot_date row,
                Photo.image_path = PhotoRow.image_path row,
                Photo.image_url = getPublicUrl env (PhotoRow.image_path row),
                Photo.created_at = PhotoRow.created_at row,
                Photo.updated_at = PhotoRow.updated_at row,
                Photo.deleted_at = PhotoRow.deleted_at row \<rparr>)"

fun map_mapPhotoRow :: "Env \<Rightarrow> PhotoRow list \<Rightarrow> error + Photo list" where
  \<comment> \<open>\<^verbatim>\<open>(data as PhotoRow[]).map(mapPhotoRow)\<close>: the first throw ends the map\<close>
  "map_mapPhotoRow env [] = Inr []"
| "map_mapPhotoRow env (row # rows) =
     (case mapPhotoRow env row of
        Inl e \<Rightarrow> Inl e
      | Inr photo \<Rightarrow>
          (case map_mapPhotoRow env rows of Inl e \<Rightarrow> Inl e | Inr ps \<Rightarrow> Inr (photo # ps)))"

definition cleanMetadata :: "PhotoMetadataInput \<Rightarrow> MetadataPayload" where
  "cleanMetadata metadata =
     \<lparr> MetadataPayload.title = trim (PhotoMetadataInput.title metadata),
       MetadataPayload.caption =
         (if trim (PhotoMetadataInput.caption metadata) \<noteq> []
          then Some (trim (PhotoMetadataInput.caption metadata)) else None),
       MetadataPayload.tags =
         filter (\<lambda>tag. tag \<noteq> []) (map (\<lambda>tag. trim tag) (PhotoMetadataInput.tags metadata)),
       MetadataPayload.shot_date = PhotoMetadataInput.shot_date metadata \<rparr>"

definition sanitizeFilename :: "string \<Rightarrow> string" where
  "sanitizeFilename filename = replace_unsafe_runs (toLowerCase filename)"

definition fetchPublicPhotos :: "Env \<Rightarrow> nat \<Rightarrow> nat \<Rightarrow> Remote \<Rightarrow> error + Photo list" where
  "fetchPublicPhotos env from to r =
     (case getSupabaseClient env of
        Inl e \<Rightarrow> Inl e
      | Inr client \<Rightarrow>
          (case run_select env
                  (range_rows from to
                    (order_rows (filter (\<lambda>row. PhotoRow.deleted_at row = None) (photos r)))) of
             Inl message \<Rightarrow> Inl (Error message)
           | Inr data \<Rightarrow> map_mapPhotoRow env data))"

definition fetchAdminPhotos :: "Env \<Rightarrow> mode \<Rightarrow> Remote \<Rightarrow> error + Photo list" where
  "fetchAdminPhotos env mode r =
     (case getSupabaseClient env of
        Inl e \<Rightarrow> Inl e
      | Inr client \<Rightarrow>
          (case run_select env
                  (order_rows
                    (filter (\<lambda>row. if mode = active then PhotoRow.deleted_at row = None
                                    else PhotoRow.deleted_at row \<noteq> None)
                       (photos r))) of
             Inl message \<Rightarrow> Inl (Error message)
           | Inr data \<Rightarrow> map_mapPhotoRow env data))"

definition filePath_of :: "Env \<Rightarrow> File \<Rightarrow> string \<Rightarrow> string" where
  \<comment> \<open>the template literal of \<^verbatim>\<open>uploadPhoto\<close>\<close>
  "filePath_of env file userId =
     userId @ ''/'' @ number_toString (Date_now env) @ ''-'' @ randomUUID env @ ''-'' @
     sanitizeFilename (File.name file)"

definition uploadPhoto ::
  "Env \<Rightarrow> File \<Rightarrow> PhotoMetadataInput \<Rightarrow> string \<Rightarrow> Remote \<Rightarrow> (error + Photo) \<times> Remote" where
  "uploadPhoto env file metadata userId r =
     (case getSupabaseClient env of
        Inl e \<Rightarrow> (Inl e, r)
      | Inr client \<Rightarrow>
          let filePath = filePath_of env file userId in
          (case storage_upload env filePath file r of
             (Some uploadError, r1) \<Rightarrow> (Inl (Error uploadError), r1)
           | (None, r1) \<Rightarrow>
               let payload = cleanMetadata metadata in
               (case db_insert env payload filePath r1 of
                  (Inl message, r2) \<Rightarrow>
                    (Inl (Error message), snd (storage_remove env filePath r2))
                | (Inr data, r2) \<Rightarrow> (mapPhotoRow env data, r2))))"

definition updatePhotoMetadata ::
  "Env \<Rightarrow> string \<Rightarrow> PhotoMetadataInput \<Rightarrow> Remote \<Rightarrow> (error + Photo) \<times> Remote" where
  "updatePhotoMetadata env photoId metadata r =
     (case getSupabaseClient env of
        Inl e \<Rightarrow> (Inl e, r)
      | Inr client \<Rightarrow>
          let payload = cleanMetadata metadata in
          (case db_update_single env
                  (\<lambda>row. row\<lparr> PhotoRow.title := MetadataPayload.title payload,
                              PhotoRow.caption := MetadataPayload.caption payload,
                              PhotoRow.tags := Some (MetadataPayload.tags payload),
                              PhotoRow.shot_date := MetadataPayload.shot_date payload \<rparr>)
                  photoId r of
             (Inl message, r') \<Rightarrow> (Inl (Error message), r')
           | (Inr data, r') \<Rightarrow> (mapPhotoRow env data, r')))"

definition softDeletePhoto :: "Env \<Rightarrow> string \<Rightarrow> Remote \<Rightarrow> (error + unit) \<times> Remote" where
  "softDeletePhoto env photoId r =
     (case getSupabaseClient env of
        Inl e \<Rightarrow> (Inl e, r)
      | Inr client \<Rightarrow>
          (case db_update env (\<lambda>row. row\<lparr>PhotoRow.deleted_at := Some (toISOString_now env)\<rparr>)
                  photoId r of
             (Inl message, r') \<Rightarrow> (Inl (Error message), r')
           | (Inr _, r') \<Rightarrow> (Inr (), r')))"

definition restorePhoto :: "Env \<Rightarrow> string \<Rightarrow> Remote \<Rightarrow> (error + unit) \<times> Remote" where
  "restorePhoto env photoId r =
     (case getSupabaseClient env of
        Inl e \<Rightarrow> (Inl e, r)
      | Inr client \<Rightarrow>
          (case db_update env (\<lambda>row. row\<lparr>PhotoRow.deleted_at := None\<rparr>) photoId r of
             (Inl message, r') \<Rightarrow> (Inl (Error message), r')
           | (Inr _, r') \<Rightarrow> (Inr (), r')))"

definition permanentlyDeletePhoto :: "Env \<Rightarrow> Photo \<Rightarrow> Remote \<Rightarrow> (error + unit) \<times> Remote" where
  "permanentlyDeletePhoto env photo r =
     (case getSupabaseClient env of
        Inl e \<Rightarrow> (Inl e, r)
      | Inr client \<Rightarrow>
          (case storage_remove env (Photo.image_path photo) r of
             (storageError, r1) \<Rightarrow>
               if storageError \<noteq> None \<and> \<not> not_found_test (the storageError)
               then (Inl (Error (the storageError)), r1)
               else
                 (case db_delete env (Photo.id photo) r1 of
                    (Some message, r2) \<Rightarrow> (Inl (Error message), r2)
                  | (None, r2) \<Rightarrow> (Inr (), r2))))"

section \<open>The public feed: \<^verbatim>\<open>src/pages/HomePage.tsx\<close>\<close>

definition PAGE_SIZE :: nat where
  "PAGE_SIZE = 9"

record HomePage =
  photos :: "Photo list"
  page :: nat
  hasMore :: bool
  isLoading :: bool
  errorMessage :: "string option"

definition getErrorMessage :: "error \<Rightarrow> string" where
  "getErrorMessage e = (case e of Error message \<Rightarrow> message)"

definition load_page :: "Env \<Rightarrow> Remote \<Rightarrow> HomePage \<Rightarrow> HomePage" where
  \<comment> \<open>The first effect of the component, run to its end without being cancelled: it
      fetches the page \<open>page\<close> and clears \<open>hasMore\<close> when the batch is short.\<close>
  "load_page env r st =
     (if \<not> isSupabaseConfigured env \<or> \<not> hasMore st then st
      else
        let rangeStart = page st * PAGE_SIZE;
            rangeEnd = rangeStart + PAGE_SIZE - 1
        in (case fetchPublicPhotos env rangeStart rangeEnd r of
              Inr nextBatch \<Rightarrow>
                st\<lparr> HomePage.photos := HomePage.photos st @ nextBatch,
                    hasMore := (if length nextBatch < PAGE_SIZE then False else hasMore st),
                    isLoading := False,
                    errorMessage := None \<rparr>
            | Inl e \<Rightarrow>
                st\<lparr> isLoading := False, errorMessage := Some (getErrorMessage e) \<rparr>))"

section \<open>Properties\<close>

subsection \<open>Words of the specification\<close>

definition leading_ws :: "string \<Rightarrow> string" where
  "leading_ws s = takeWhile isWhiteSpace s"

definition trailing_ws :: "string \<Rightarrow> string" where
  "trailing_ws s = rev (takeWhile isWhiteSpace (rev (dropWhile isWhiteSpace s)))"

definition blank :: "string \<Rightarrow> bool" where
  \<comment> \<open>empty or whitespace only\<close>
  "blank s \<longleftrightarrow> list_all isWhiteSpace s"

definition sanitize_each_char :: "string \<Rightarrow> string" where
  \<comment> \<open>sanitization in the words of the specification: lowercase, then every character
      outside the class becomes a hyphen\<close>
  "sanitize_each_char filename =
     map (\<lambda>c. if safe_char c then c else CHR ''-'') (toLowerCase filename)"

definition photo_of :: "Env \<Rightarrow> PhotoRow \<Rightarrow> Photo" where
  \<comment> \<open>the Photo that \<open>mapPhotoRow\<close> returns for a row\<close>
  "photo_of env row =
     \<lparr> Photo.id = PhotoRow.id row,
       Photo.title = PhotoRow.title row,
       Photo.caption = PhotoRow.caption row,
       Photo.tags = (case PhotoRow.tags row of None \<Rightarrow> [] | Some ts \<Rightarrow> ts),
       Photo.shot_date = PhotoRow.shot_date row,
       Photo.image_path = PhotoRow.image_path row,
       Photo.image_url = getPublicUrl env (PhotoRow.image_path row),
       Photo.created_at = PhotoRow.created_at row,
       Photo.updated_at = PhotoRow.updated_at row,
       Photo.deleted_at = PhotoRow.deleted_at row \<rparr>"

definition row_key :: "PhotoRow \<Rightarrow> string \<times> string" where
  "row_key row = (PhotoRow.shot_date row, PhotoRow.created_at row)"

definition precedes_strictly :: "PhotoRow \<Rightarrow> PhotoRow \<Rightarrow> bool" where
  "precedes_strictly a b \<longleftrightarrow>
     PhotoRow.shot_date b < PhotoRow.shot_date a \<or>
     (PhotoRow.shot_date a = PhotoRow.shot_date b \<and> PhotoRow.created_at b < PhotoRow.created_at a)"

definition newer :: "Photo \<Rightarrow> Photo \<Rightarrow> bool" where
  \<comment> \<open>\<open>p\<close> comes strictly before \<open>q\<close>: by \<open>shot_date\<close> descending, ties broken by
      \<open>created_at\<close> descending\<close>
  "newer p q \<longleftrightarrow>
     Photo.shot_date q < Photo.shot_date p \<or>
     (Photo.shot_date p = Photo.shot_date q \<and> Photo.created_at q < Photo.created_at p)"

definition in_scope :: "mode \<Rightarrow> PhotoRow \<Rightarrow> bool" where
  \<comment> \<open>\<open>active\<close>: \<open>deleted_at\<close> is null; \<open>trash\<close>: it is not\<close>
  "in_scope m row \<longleftrightarrow>
     (case m of active \<Rightarrow> PhotoRow.deleted_at row = None | trash \<Rightarrow> PhotoRow.deleted_at row \<noteq> None)"

definition active_rows :: "Remote \<Rightarrow> PhotoRow list" where
  \<comment> \<open>the rows visible to the public: \<open>deleted_at\<close> is null\<close>
  "active_rows r = filter (\<lambda>row. PhotoRow.deleted_at row = None) (Remote.photos r)"

definition rows_with_id :: "string \<Rightarrow> Remote \<Rightarrow> PhotoRow list" where
  "rows_with_id photoId r = filter (\<lambda>row. PhotoRow.id row = photoId) (Remote.photos r)"

definition written_by_update :: "Env \<Rightarrow> PhotoMetadataInput \<Rightarrow> PhotoRow \<Rightarrow> PhotoRow" where
  \<comment> \<open>a row after the update of its four metadata columns with the normalized input,
      \<open>updated_at\<close> refreshed by the trigger\<close>
  "written_by_update env metadata row =
     row\<lparr> PhotoRow.title := MetadataPayload.title (cleanMetadata metadata),
          PhotoRow.caption := MetadataPayload.caption (cleanMetadata metadata),
          PhotoRow.tags := Some (MetadataPayload.tags (cleanMetadata metadata)),
          PhotoRow.shot_date := MetadataPayload.shot_date (cleanMetadata metadata),
          PhotoRow.updated_at := now env \<rparr>"

subsection \<open>Example inputs\<close>

definition env_ok :: Env where
  "env_ok =
     \<lparr> isSupabaseConfigured = True, getPublicUrl = (\<lambda>path. ''https://cdn/'' @ path),
       Date_now = 1708387200000, toISOString_now = ''2024-02-20T10:00:00.000Z'',
       randomUUID = ''123e4567-e89b-42d3-a456-426614174000'',
       gen_random_uuid = ''p9'', now = ''2024-02-20T10:00:01+00:00'',
       select_fault = None, upload_fault = None, remove_fault = None,
       insert_fault = None, update_fault = None, delete_fault = None \<rparr>"

definition file_ok :: File where
  "file_ok = \<lparr> File.name = ''My Photo.JPG'', type = ''image/jpeg'', bytes = [255, 216] \<rparr>"

definition example_row :: "string \<Rightarrow> string \<Rightarrow> string \<Rightarrow> string option \<Rightarrow> PhotoRow" where
  "example_row n shot created deleted =
     \<lparr> PhotoRow.id = ''p'' @ n, PhotoRow.title = ''Photo '' @ n, PhotoRow.caption = None,
       PhotoRow.tags = Some [''journal''], PhotoRow.shot_date = shot,
       PhotoRow.image_path = ''owner-1/'' @ n @ ''.jpg'', PhotoRow.created_at = created,
       PhotoRow.updated_at = created, PhotoRow.deleted_at = deleted \<rparr>"

definition remote_ok :: Remote where
  \<comment> \<open>three active photos, two of them shot on the same day, and one in the trash\<close>
  "remote_ok =
     \<lparr> Remote.photos =
         [example_row ''1'' ''2024-03-01'' ''2024-03-02T08:00:00+00:00'' None,
          example_row ''2'' ''2024-03-01'' ''2024-03-03T08:00:00+00:00'' None,
          example_row ''3'' ''2024-04-10'' ''2024-04-11T08:00:00+00:00''
            (Some ''2024-05-01T00:00:00.000Z''),
          example_row ''4'' ''2023-12-24'' ''2024-01-05T08:00:00+00:00'' None],
       bucket =
         [''owner-1/1.jpg'' \<mapsto> file_ok, ''owner-1/2.jpg'' \<mapsto> file_ok,
          ''owner-1/3.jpg'' \<mapsto> file_ok, ''owner-1/4.jpg'' \<mapsto> file_ok] \<rparr>"

definition remote_nine :: Remote where
  \<comment> \<open>exactly nine active photos, and one in the trash\<close>
  "remote_nine =
     \<lparr> Remote.photos =
         example_row ''0'' ''2024-01-15'' ''2024-02-01T08:00:00+00:00''
           (Some ''2024-05-01T00:00:00.000Z'') #
         map (\<lambda>d. example_row [d] (''2024-01-0'' @ [d]) ''2024-02-01T08:00:00+00:00'' None)
           ''123456789'',
       bucket = Map.empty \<rparr>"

definition home_start :: HomePage where
  "home_start =
     \<lparr> HomePage.photos = [], page = 0, hasMore = True, isLoading = False, errorMessage = None \<rparr>"

definition metadata_ok :: PhotoMetadataInput where
  "metadata_ok =
     \<lparr> PhotoMetadataInput.title = ''  Dawn  '', caption = ''   '',
       tags = ['' a '', '''', '' b,b ''], shot_date = ''2024-06-01'' \<rparr>"

definition env_insert_rejected :: Env where
  \<comment> \<open>the insert is rejected and the remote removes the object when asked\<close>
  "env_insert_rejected =
     env_ok\<lparr>insert_fault := Some ''new row violates row-level security policy''\<rparr>"

definition env_cleanup_fails :: Env where
  \<comment> \<open>the insert is rejected and so is the removal that follows\<close>
  "env_cleanup_fails =
     env_ok\<lparr>insert_fault := Some ''new row violates row-level security policy'',
            remove_fault := Some ''Failed to fetch''\<rparr>"

definition env_upload_rejected :: Env where
  "env_upload_rejected = env_ok\<lparr>upload_fault := Some ''Payload too large''\<rparr>"

definition photo_one :: Photo where
  \<comment> \<open>the first photo of \<open>remote_ok\<close>, as an admin listing returns it\<close>
  "photo_one =
     photo_of env_ok (example_row ''1'' ''2024-03-01'' ''2024-03-02T08:00:00+00:00'' None)"

definition env_row_delete_rejected :: Env where
  "env_row_delete_rejected = env_ok\<lparr>delete_fault := Some ''permission denied for table photos''\<rparr>"

definition env_remove_rejected :: Env where
  "env_remove_rejected = env_ok\<lparr>remove_fault := Some ''Failed to fetch''\<rparr>"

definition env_later :: Env where
  \<comment> \<open>a later call: the clocks have moved on\<close>
  "env_later =
     env_ok\<lparr>toISOString_now := ''2024-02-21T09:30:00.000Z'', now := ''2024-02-21T09:30:01+00:00''\<rparr>"

section \<open>Strings: lemmas\<close>

lemma safe_char_replace_unsafe_runs: "list_all safe_char (replace_unsafe_runs s)"
  by (induction s rule: replace_unsafe_runs.induct) (simp_all add: safe_char_def)

lemma replace_unsafe_runs_safe: "list_all safe_char s \<Longrightarrow> replace_unsafe_runs s = s"
  by (induction s) simp_all

lemma replace_unsafe_runs_append:
  "pre = [] \<or> safe_char (last pre) \<Longrightarrow>
   replace_unsafe_runs (pre @ post) = replace_unsafe_runs pre @ replace_unsafe_runs post"
proof (induction pre rule: replace_unsafe_runs.induct)
  case 1
  then show ?case by simp
next
  case (2 c cs)
  show ?case
  proof (cases "safe_char c")
    case True
    with 2 show ?thesis by (cases cs) auto
  next
    case False
    with "2.prems" have cs: "cs \<noteq> []" "safe_char (last cs)"
      by (auto split: if_splits)
    then have ex: "\<exists>x \<in> set cs. safe_char x"
      using last_in_set by blast
    then obtain x where "x \<in> set cs" "\<not> \<not> safe_char x"
      by auto
    then have d: "dropWhile (\<lambda>d. \<not> safe_char d) (cs @ post) = dropWhile (\<lambda>d. \<not> safe_char d) cs @ post"
      by (simp add: dropWhile_append1)
    from ex have ne: "dropWhile (\<lambda>d. \<not> safe_char d) cs \<noteq> []"
      by (simp add: dropWhile_eq_Nil_conv)
    then have "last (dropWhile (\<lambda>d. \<not> safe_char d) cs) = last cs"
      by (metis append_Nil2 last_appendR takeWhile_dropWhile_id)
    with cs have "dropWhile (\<lambda>d. \<not> safe_char d) cs = [] \<or> safe_char (last (dropWhile (\<lambda>d. \<not> safe_char d) cs))"
      by simp
    from "2.IH"(2) [OF False this] False d show ?thesis
      by simp
  qed
qed

lemma replace_unsafe_runs_run:
  assumes "run \<noteq> []" "list_all (\<lambda>c. \<not> safe_char c) run" "post = [] \<or> safe_char (hd post)"
  shows "replace_unsafe_runs (run @ post) = CHR ''-'' # replace_unsafe_runs post"
proof -
  from assms(1) obtain c cs where run: "run = c # cs"
    by (cases run) auto
  with assms(2) have c: "\<not> safe_char c" and cs: "\<forall>x \<in> set cs. \<not> safe_char x"
    by (auto simp: list_all_iff)
  from assms(3) have "dropWhile (\<lambda>d. \<not> safe_char d) post = post"
    by (cases post) auto
  with cs have "dropWhile (\<lambda>d. \<not> safe_char d) (cs @ post) = post"
    by (simp add: dropWhile_append2)
  with run c show ?thesis by simp
qed

lemma safe_char_digit: "n < 10 \<Longrightarrow> safe_char (''0123456789'' ! n)"
proof -
  assume "n < 10"
  then have "n \<in> {0, 1, 2, 3, 4, 5, 6, 7, 8, 9}" by auto
  then show ?thesis by (auto simp: safe_char_def)
qed

lemma safe_char_digits: "list_all safe_char (digits n)"
proof (induction n rule: digits.induct)
  case (1 n)
  show ?case
  proof (cases "n < 10")
    case True
    then show ?thesis by (simp add: digits.simps [of n] safe_char_digit)
  next
    case False
    with 1 show ?thesis by (simp add: digits.simps [of n] safe_char_digit)
  qed
qed

lemma safe_char_number_toString: "list_all safe_char (number_toString n)"
  by (simp add: number_toString_def safe_char_digits) (simp add: safe_char_def)

lemma safe_char_hex: "isHexDigit c \<Longrightarrow> safe_char c"
  by (auto simp: safe_char_def isHexDigit_def less_eq_char_def)

lemma list_all2_imp_list_all:
  "list_all2 P xs ys \<Longrightarrow> (\<And>x y. P x y \<Longrightarrow> Q y) \<Longrightarrow> list_all Q ys"
  by (induction rule: list_all2_induct) auto

lemma safe_char_uuid: "is_uuid s \<Longrightarrow> list_all safe_char s"
  unfolding is_uuid_def
proof (erule list_all2_imp_list_all)
  fix x y :: char
  assume "if x = CHR ''-'' then y = CHR ''-'' else isHexDigit y"
  then show "safe_char y"
    by (cases "x = CHR ''-''") (simp_all add: safe_char_hex, simp add: safe_char_def)
qed

subsection \<open>Facts about \<open>trim\<close>\<close>

lemma trim_decompose: "s = leading_ws s @ trim s @ trailing_ws s"
proof -
  have "rev (dropWhile isWhiteSpace s) =
          takeWhile isWhiteSpace (rev (dropWhile isWhiteSpace s)) @
          dropWhile isWhiteSpace (rev (dropWhile isWhiteSpace s))"
    by simp
  then have "dropWhile isWhiteSpace s = trim s @ trailing_ws s"
    unfolding trim_def trailing_ws_def by (metis rev_append rev_rev_ident)
  moreover have "s = takeWhile isWhiteSpace s @ dropWhile isWhiteSpace s"
    by simp
  ultimately show ?thesis
    unfolding leading_ws_def by simp
qed

lemma blank_leading_ws: "blank (leading_ws s)"
  unfolding blank_def leading_ws_def list_all_iff by (auto dest: set_takeWhileD)

lemma blank_trailing_ws: "blank (trailing_ws s)"
  unfolding blank_def trailing_ws_def list_all_iff by (auto dest: set_takeWhileD)

lemma takeWhile_after_dropWhile: "takeWhile P (dropWhile P xs) = []"
  by (induction xs) auto

lemma dropWhile_snoc_keeps_last:
  "\<not> P x \<Longrightarrow> \<exists>ys. dropWhile P (zs @ [x]) = ys @ [x]"
  by (induction zs) auto

lemma trim_no_leading_ws: "leading_ws (trim s) = []"
proof (cases "dropWhile isWhiteSpace s")
  case Nil
  then show ?thesis by (simp add: trim_def leading_ws_def del: dropWhile_eq_Nil_conv)
next
  case (Cons x d)
  with hd_dropWhile [of isWhiteSpace s] have x: "\<not> isWhiteSpace x"
    by simp
  from x dropWhile_snoc_keeps_last [of isWhiteSpace x "rev d"]
  obtain ys where "dropWhile isWhiteSpace (rev d @ [x]) = ys @ [x]"
    by blast
  with Cons x show ?thesis
    by (simp add: trim_def leading_ws_def)
qed

lemma trim_no_trailing_ws: "leading_ws (rev (trim s)) = []"
  by (simp add: trim_def leading_ws_def takeWhile_after_dropWhile)

lemma trim_Nil_iff: "trim s = [] \<longleftrightarrow> blank s"
proof
  assume "trim s = []"
  with trim_decompose [of s] have "s = leading_ws s @ trailing_ws s"
    by simp
  with blank_leading_ws [of s] blank_trailing_ws [of s] show "blank s"
    unfolding blank_def by (metis list_all_append)
next
  assume "blank s"
  then have "dropWhile isWhiteSpace s = []"
    by (simp add: blank_def list_all_iff)
  then show "trim s = []"
    by (simp add: trim_def del: dropWhile_eq_Nil_conv)
qed

lemma filter_trim_tags:
  "filter (\<lambda>tag. tag \<noteq> []) (map (\<lambda>tag. trim tag) ts) =
   map trim (filter (\<lambda>tag. \<not> blank tag) ts)"
  by (induction ts) (simp_all add: trim_Nil_iff)

subsection \<open>Metadata normalization\<close>

text \<open>
  C1. \<^verbatim>\<open>cleanMetadata\<close> trims the title; a caption that is empty or only whitespace
  becomes \<^verbatim>\<open>null\<close>, any other caption is trimmed; the tags that are not blank are kept
  in order, each trimmed and never split; the shot date is passed on. Trimming removes
  exactly the whitespace around a string: \<open>s\<close> is whitespace, then \<open>trim s\<close>, then
  whitespace, and \<open>trim s\<close> neither starts nor ends with whitespace. The example of the
  specification evaluates as written there.
\<close>

theorem cleanMetadata_normalizes:
  "MetadataPayload.title (cleanMetadata m) = trim (PhotoMetadataInput.title m) \<and>
   MetadataPayload.caption (cleanMetadata m) =
     (if blank (PhotoMetadataInput.caption m) then None
      else Some (trim (PhotoMetadataInput.caption m))) \<and>
   MetadataPayload.tags (cleanMetadata m) =
     map trim (filter (\<lambda>tag. \<not> blank tag) (PhotoMetadataInput.tags m)) \<and>
   MetadataPayload.shot_date (cleanMetadata m) = PhotoMetadataInput.shot_date m \<and>
   s = leading_ws s @ trim s @ trailing_ws s \<and>
   blank (leading_ws s) \<and> blank (trailing_ws s) \<and>
   leading_ws (trim s) = [] \<and> leading_ws (rev (trim s)) = [] \<and>
   cleanMetadata
     \<lparr> PhotoMetadataInput.title = ''  Dawn  '', caption = ''   '',
       tags = ['' a '', '''', '' b,b ''], shot_date = d \<rparr> =
     \<lparr> MetadataPayload.title = ''Dawn'', caption = None, tags = [''a'', ''b,b''],
       shot_date = d \<rparr>"
proof -
  have "MetadataPayload.caption (cleanMetadata m) =
     (if blank (PhotoMetadataInput.caption m) then None
      else Some (trim (PhotoMetadataInput.caption m)))"
    by (simp add: cleanMetadata_def trim_Nil_iff)
  moreover have "MetadataPayload.tags (cleanMetadata m) =
     map trim (filter (\<lambda>tag. \<not> blank tag) (PhotoMetadataInput.tags m))"
    by (simp add: cleanMetadata_def filter_trim_tags)
  moreover have "cleanMetadata
     \<lparr> PhotoMetadataInput.title = ''  Dawn  '', caption = ''   '',
       tags = ['' a '', '''', '' b,b ''], shot_date = d \<rparr> =
     \<lparr> MetadataPayload.title = ''Dawn'', caption = None, tags = [''a'', ''b,b''],
       shot_date = d \<rparr>"
    by (simp add: cleanMetadata_def trim_def isWhiteSpace_def)
  moreover have "s = leading_ws s @ trim s @ trailing_ws s"
    by (rule trim_decompose)
  moreover have "MetadataPayload.title (cleanMetadata m) = trim (PhotoMetadataInput.title m)"
    and "MetadataPayload.shot_date (cleanMetadata m) = PhotoMetadataInput.shot_date m"
    by (simp_all add: cleanMetadata_def)
  ultimately show ?thesis
    using blank_leading_ws [of s] blank_trailing_ws [of s]
      trim_no_leading_ws [of s] trim_no_trailing_ws [of s]
    by blast
qed

theorem cleanMetadata_normalizes_witness:
  "MetadataPayload.title
     (cleanMetadata \<lparr> PhotoMetadataInput.title = ''  Dawn  '', caption = '' x '',
        tags = ['' a '', ''  ''], shot_date = ''2024-05-01'' \<rparr>) = ''Dawn'' \<and>
   MetadataPayload.caption
     (cleanMetadata \<lparr> PhotoMetadataInput.title = ''  Dawn  '', caption = '' x '',
        tags = ['' a '', ''  ''], shot_date = ''2024-05-01'' \<rparr>) = Some ''x'' \<and>
   MetadataPayload.tags
     (cleanMetadata \<lparr> PhotoMetadataInput.title = ''  Dawn  '', caption = '' x '',
        tags = ['' a '', ''  ''], shot_date = ''2024-05-01'' \<rparr>) = [''a''] \<and>
   ''  Dawn  '' = ''  '' @ trim ''  Dawn  '' @ ''  ''"
  using cleanMetadata_normalizes
    [of "\<lparr> PhotoMetadataInput.title = ''  Dawn  '', caption = '' x '',
          tags = ['' a '', ''  ''], shot_date = ''2024-05-01'' \<rparr>" "''  Dawn  ''"]
  by (simp add: blank_def trim_def isWhiteSpace_def leading_ws_def trailing_ws_def)

lemma toLowerCase_append: "toLowerCase (xs @ ys) = toLowerCase xs @ toLowerCase ys"
  by (simp add: toLowerCase_def)

lemma filePath_of_safe:
  assumes "is_uuid (randomUUID env)"
  shows "list_all safe_char
           (number_toString (Date_now env) @ ''-'' @ randomUUID env @ ''-'' @
            sanitizeFilename (File.name file))"
proof -
  have "list_all safe_char ''-''"
    by (simp add: safe_char_def)
  with assms show ?thesis
    by (simp add: safe_char_number_toString safe_char_uuid sanitizeFilename_def
        safe_char_replace_unsafe_runs)
qed

subsection \<open>Storage keys\<close>

text \<open>
  C2, as stated: sanitization lowercases the filename and replaces every character outside
  \<^verbatim>\<open>[a-z0-9.\-_]\<close> by a hyphen, so that \<open>n\<close> consecutive such characters give \<open>n\<close>
  hyphens. The code does not: two spaces in a row give one hyphen.
\<close>

theorem sanitizeFilename_counterexample:
  "sanitizeFilename ''a  b.JPG'' = ''a-b.jpg'' \<and>
   sanitize_each_char ''a  b.JPG'' = ''a--b.jpg'' \<and>
   sanitizeFilename ''a  b.JPG'' \<noteq> sanitize_each_char ''a  b.JPG''"
  by (simp add: sanitizeFilename_def sanitize_each_char_def toLowerCase_def
      toLowerCase_unit_def isUpperCase_def safe_char_def)

text \<open>
  C2, amended: sanitization lowercases the filename and replaces every maximal run of one
  or more characters outside \<^verbatim>\<open>[a-z0-9.\-_]\<close> by a single hyphen, whatever the length of
  the run; a filename whose lowercase form has only characters of the class is just
  lowercased. The result has only characters of the class, and the storage key is the
  owner, a slash, and then only characters of the class (the random token being a UUID).
\<close>

theorem sanitizeFilename_collapses_runs:
  "list_all safe_char (sanitizeFilename filename) \<and>
   (list_all safe_char (toLowerCase filename) \<longrightarrow>
      sanitizeFilename filename = toLowerCase filename) \<and>
   (run \<noteq> [] \<and> list_all (\<lambda>c. \<not> safe_char c) (toLowerCase run) \<and>
    (pre = [] \<or> safe_char (last (toLowerCase pre))) \<and>
    (post = [] \<or> safe_char (hd (toLowerCase post))) \<longrightarrow>
      sanitizeFilename (pre @ run @ post) =
        sanitizeFilename pre @ ''-'' @ sanitizeFilename post) \<and>
   (is_uuid (randomUUID env) \<longrightarrow>
      (\<exists>rest. filePath_of env file userId = userId @ ''/'' @ rest \<and> list_all safe_char rest))"
proof (intro conjI impI)
  show "list_all safe_char (sanitizeFilename filename)"
    by (simp add: sanitizeFilename_def safe_char_replace_unsafe_runs)
next
  assume "list_all safe_char (toLowerCase filename)"
  then show "sanitizeFilename filename = toLowerCase filename"
    by (simp add: sanitizeFilename_def replace_unsafe_runs_safe)
next
  assume a: "run \<noteq> [] \<and> list_all (\<lambda>c. \<not> safe_char c) (toLowerCase run) \<and>
    (pre = [] \<or> safe_char (last (toLowerCase pre))) \<and>
    (post = [] \<or> safe_char (hd (toLowerCase post)))"
  then have pre: "toLowerCase pre = [] \<or> safe_char (last (toLowerCase pre))"
    and post: "toLowerCase post = [] \<or> safe_char (hd (toLowerCase post))"
    and run: "toLowerCase run \<noteq> []"
    by (auto simp: toLowerCase_def)
  from a have "replace_unsafe_runs (toLowerCase run @ toLowerCase post) =
      CHR ''-'' # replace_unsafe_runs (toLowerCase post)"
    using replace_unsafe_runs_run [OF run _ post] by blast
  with replace_unsafe_runs_append [OF pre, of "toLowerCase run @ toLowerCase post"]
  show "sanitizeFilename (pre @ run @ post) =
      sanitizeFilename pre @ ''-'' @ sanitizeFilename post"
    by (simp add: sanitizeFilename_def toLowerCase_append)
next
  assume "is_uuid (randomUUID env)"
  then have "list_all safe_char
           (number_toString (Date_now env) @ ''-'' @ randomUUID env @ ''-'' @
            sanitizeFilename (File.name file))"
    by (rule filePath_of_safe)
  then show "\<exists>rest. filePath_of env file userId = userId @ ''/'' @ rest \<and> list_all safe_char rest"
    unfolding filePath_of_def by blast
qed

theorem sanitizeFilename_collapses_runs_witness:
  "sanitizeFilename ''IMG_01.JPG'' = ''img_01.jpg'' \<and>
   sanitizeFilename ''My (#1).PNG'' = ''my-1-.png'' \<and>
   (\<exists>rest. filePath_of env_ok file_ok ''owner-1'' = ''owner-1/'' @ rest \<and>
      list_all safe_char rest)"
proof -
  note T = sanitizeFilename_collapses_runs
    [of "''IMG_01.JPG''" "'' (#''" "''My''" "''1).PNG''" env_ok file_ok "''owner-1''"]
  have 1: "list_all safe_char (toLowerCase ''IMG_01.JPG'')"
    by (simp add: toLowerCase_def toLowerCase_unit_def isUpperCase_def safe_char_def)
  have 2: "'' (#'' \<noteq> [] \<and> list_all (\<lambda>c. \<not> safe_char c) (toLowerCase '' (#'') \<and>
    (''My'' = [] \<or> safe_char (last (toLowerCase ''My''))) \<and>
    (''1).PNG'' = [] \<or> safe_char (hd (toLowerCase ''1).PNG'')))"
    by (simp add: toLowerCase_def toLowerCase_unit_def isUpperCase_def safe_char_def)
  have 3: "is_uuid (randomUUID env_ok)"
    by (simp add: env_ok_def is_uuid_def isHexDigit_def)
  have "sanitizeFilename ''IMG_01.JPG'' = toLowerCase ''IMG_01.JPG''"
    by (rule T [THEN conjunct2, THEN conjunct1, THEN mp, OF 1])
  then have a: "sanitizeFilename ''IMG_01.JPG'' = ''img_01.jpg''"
    by (simp add: toLowerCase_def toLowerCase_unit_def isUpperCase_def)
  have "sanitizeFilename (''My'' @ '' (#'' @ ''1).PNG'') =
      sanitizeFilename ''My'' @ ''-'' @ sanitizeFilename ''1).PNG''"
    by (rule T [THEN conjunct2, THEN conjunct2, THEN conjunct1, THEN mp, OF 2])
  then have b: "sanitizeFilename ''My (#1).PNG'' = ''my-1-.png''"
    by (simp add: sanitizeFilename_def toLowerCase_def toLowerCase_unit_def isUpperCase_def
        safe_char_def)
  have c: "\<exists>rest. filePath_of env_ok file_ok ''owner-1'' = ''owner-1/'' @ rest \<and>
      list_all safe_char rest"
    using T [THEN conjunct2, THEN conjunct2, THEN conjunct2, THEN mp, OF 3] by simp
  from a b c show ?thesis
    by (intro conjI)
qed

section \<open>Reading: lemmas\<close>

lemma getSupabaseClient_configured:
  "isSupabaseConfigured env \<Longrightarrow> getSupabaseClient env = Inr ()"
  by (simp add: getSupabaseClient_def)

lemma mapPhotoRow_configured:
  "isSupabaseConfigured env \<Longrightarrow> mapPhotoRow env row = Inr (photo_of env row)"
  by (simp add: mapPhotoRow_def getSupabaseClient_configured photo_of_def)

lemma map_mapPhotoRow_configured:
  "isSupabaseConfigured env \<Longrightarrow> map_mapPhotoRow env rows = Inr (map (photo_of env) rows)"
  by (induction rows) (simp_all add: mapPhotoRow_configured)

lemma fetchPublicPhotos_Inr_iff:
  "fetchPublicPhotos env from to r = Inr ps \<longleftrightarrow>
     isSupabaseConfigured env \<and> select_fault env = None \<and>
     ps = map (photo_of env)
            (range_rows from to
               (order_rows (filter (\<lambda>row. PhotoRow.deleted_at row = None) (Remote.photos r))))"
proof (cases "isSupabaseConfigured env")
  case True
  then show ?thesis
    by (auto simp: fetchPublicPhotos_def getSupabaseClient_configured run_select_def
        map_mapPhotoRow_configured split: option.splits)
next
  case False
  then show ?thesis
    by (simp add: fetchPublicPhotos_def getSupabaseClient_def)
qed

lemma fetchAdminPhotos_Inr_iff:
  "fetchAdminPhotos env m r = Inr ps \<longleftrightarrow>
     isSupabaseConfigured env \<and> select_fault env = None \<and>
     ps = map (photo_of env) (order_rows (filter (in_scope m) (Remote.photos r)))"
proof (cases "isSupabaseConfigured env")
  case True
  have "(\<lambda>row. if m = active then PhotoRow.deleted_at row = None
               else PhotoRow.deleted_at row \<noteq> None) = in_scope m"
    by (cases m) (auto simp: in_scope_def fun_eq_iff)
  with True show ?thesis
    by (auto simp: fetchAdminPhotos_def getSupabaseClient_configured run_select_def
        map_mapPhotoRow_configured split: option.splits)
next
  case False
  then show ?thesis
    by (simp add: fetchAdminPhotos_def getSupabaseClient_def)
qed

subsection \<open>The order of a listing\<close>

lemma precedes_total: "precedes a b \<or> precedes b a"
  by (auto simp: precedes_def)

lemma precedes_trans: "precedes a b \<Longrightarrow> precedes b c \<Longrightarrow> precedes a c"
  by (auto simp: precedes_def)

lemma set_insert_row: "set (insert_row x xs) = insert x (set xs)"
  by (induction xs) auto

lemma sorted_insert_row:
  "sorted_wrt precedes xs \<Longrightarrow> sorted_wrt precedes (insert_row x xs)"
proof (induction xs)
  case Nil
  then show ?case by simp
next
  case (Cons y ys)
  show ?case
  proof (cases "precedes x y")
    case True
    with Cons.prems show ?thesis
      by (auto intro: precedes_trans)
  next
    case False
    with precedes_total [of x y] have "precedes y x" by simp
    with False Cons show ?thesis
      by (auto simp: set_insert_row)
  qed
qed

lemma set_order_rows: "set (order_rows rows) = set rows"
  by (induction rows) (simp_all add: order_rows_def set_insert_row)

lemma length_insert_row: "length (insert_row x xs) = Suc (length xs)"
  by (induction xs) auto

lemma length_order_rows: "length (order_rows rows) = length rows"
  by (induction rows) (simp_all add: order_rows_def length_insert_row)

lemma sorted_order_rows: "sorted_wrt precedes (order_rows rows)"
proof (induction rows)
  case Nil
  then show ?case by (simp add: order_rows_def)
next
  case (Cons x xs)
  then have "sorted_wrt precedes (insert_row x (order_rows xs))"
    by (rule sorted_insert_row)
  then show ?case by (simp add: order_rows_def)
qed

lemma distinct_keys_insert_row:
  "distinct (map row_key (insert_row x xs)) \<longleftrightarrow>
     row_key x \<notin> row_key ` set xs \<and> distinct (map row_key xs)"
  by (induction xs) (auto simp: set_insert_row)

lemma order_rows_Cons: "order_rows (x # xs) = insert_row x (order_rows xs)"
  by (simp add: order_rows_def)

lemma distinct_keys_order_rows:
  "distinct (map row_key rows) \<Longrightarrow> distinct (map row_key (order_rows rows))"
proof (induction rows)
  case Nil
  then show ?case by (simp add: order_rows_def)
next
  case (Cons x xs)
  then show ?case
    by (simp add: order_rows_Cons distinct_keys_insert_row set_order_rows)
qed

lemma precedes_strictly_of_distinct:
  "precedes a b \<Longrightarrow> row_key a \<noteq> row_key b \<Longrightarrow> precedes_strictly a b"
  by (auto simp: precedes_def precedes_strictly_def row_key_def)

lemma sorted_strictly:
  "sorted_wrt precedes xs \<Longrightarrow> distinct (map row_key xs) \<Longrightarrow> sorted_wrt precedes_strictly xs"
proof (induction xs)
  case Nil
  then show ?case by simp
next
  case (Cons x xs)
  then show ?case
    by (auto intro!: precedes_strictly_of_distinct)
qed

lemma newer_photo_of:
  "newer (photo_of env a) (photo_of env b) \<longleftrightarrow> precedes_strictly a b"
  by (simp add: newer_def precedes_strictly_def photo_of_def)

lemma ordered_listing:
  assumes "distinct (map row_key rows)"
  shows "sorted_wrt newer (map (photo_of env) (order_rows (filter P rows)))"
proof -
  from assms have "distinct (map row_key (filter P rows))"
    by (rule distinct_map_filter)
  then have "distinct (map row_key (order_rows (filter P rows)))"
    by (rule distinct_keys_order_rows)
  with sorted_order_rows have "sorted_wrt precedes_strictly (order_rows (filter P rows))"
    by (rule sorted_strictly)
  then show ?thesis
    by (simp add: sorted_wrt_map newer_photo_of)
qed

lemma ordered_page:
  assumes "distinct (map row_key rows)"
  shows "sorted_wrt newer (map (photo_of env) (range_rows from to (order_rows (filter P rows))))"
proof -
  from assms have "sorted_wrt newer (map (photo_of env) (order_rows (filter P rows)))"
    by (rule ordered_listing)
  then have "sorted_wrt (\<lambda>a b. newer (photo_of env a) (photo_of env b))
      (order_rows (filter P rows))"
    by (simp add: sorted_wrt_map)
  then have "sorted_wrt (\<lambda>a b. newer (photo_of env a) (photo_of env b))
      (range_rows from to (order_rows (filter P rows)))"
    unfolding range_rows_def by (intro sorted_wrt_take sorted_wrt_drop)
  then show ?thesis
    by (simp add: sorted_wrt_map)
qed

subsection \<open>Ordering\<close>

text \<open>
  C5. When the stored photos have distinct pairs (\<open>shot_date\<close>, \<open>created_at\<close>), what
  \<^verbatim>\<open>fetchPublicPhotos\<close> returns, and what \<^verbatim>\<open>fetchAdminPhotos\<close> returns in either scope, is
  sorted by \<open>shot_date\<close> descending, ties broken by \<open>created_at\<close> descending. Both do return
  a listing when the client is configured and the remote answers the query.
\<close>

theorem listings_sorted:
  assumes "distinct (map row_key (Remote.photos r))"
  shows "(fetchPublicPhotos env from to r = Inr ps \<longrightarrow> sorted_wrt newer ps) \<and>
         (fetchAdminPhotos env m r = Inr ps' \<longrightarrow> sorted_wrt newer ps') \<and>
         (isSupabaseConfigured env \<and> select_fault env = None \<longrightarrow>
            (\<exists>qs. fetchPublicPhotos env from to r = Inr qs) \<and>
            (\<exists>qs. fetchAdminPhotos env m r = Inr qs))"
  using assms
  by (simp add: fetchPublicPhotos_Inr_iff fetchAdminPhotos_Inr_iff ordered_listing ordered_page)

theorem listings_sorted_witness:
  "distinct (map row_key (Remote.photos remote_ok)) \<and>
   map Photo.id (projr (fetchPublicPhotos env_ok 0 8 remote_ok)) = [''p2'', ''p1'', ''p4''] \<and>
   sorted_wrt newer (projr (fetchPublicPhotos env_ok 0 8 remote_ok)) \<and>
   sorted_wrt newer (projr (fetchAdminPhotos env_ok trash remote_ok))"
proof -
  have d: "distinct (map row_key (Remote.photos remote_ok))"
    by (simp add: remote_ok_def example_row_def row_key_def)
  have c: "isSupabaseConfigured env_ok \<and> select_fault env_ok = None"
    by (simp add: env_ok_def)
  note T = listings_sorted [OF d, of env_ok 0 8 _ trash]
  from T c obtain qs qs' where
    qs: "fetchPublicPhotos env_ok 0 8 remote_ok = Inr qs"
    and qs': "fetchAdminPhotos env_ok trash remote_ok = Inr qs'"
    by blast
  from qs qs' listings_sorted [OF d, of env_ok 0 8 qs trash qs']
  have s: "sorted_wrt newer qs" "sorted_wrt newer qs'"
    by simp_all
  from qs have "map Photo.id qs = [''p2'', ''p1'', ''p4'']"
    by (simp add: fetchPublicPhotos_Inr_iff remote_ok_def example_row_def range_rows_def
        order_rows_def precedes_def photo_of_def)
  with d s qs qs' show ?thesis
    by simp
qed

subsection \<open>Visibility\<close>

text \<open>
  C6. No photo returned by \<^verbatim>\<open>fetchPublicPhotos\<close> has a \<open>deleted_at\<close>; none returned by
  \<^verbatim>\<open>fetchAdminPhotos('trash')\<close> lacks it; none returned by \<^verbatim>\<open>fetchAdminPhotos('active')\<close>
  has it. An admin listing is made of exactly the stored rows of its scope.
\<close>

theorem listings_visibility:
  "(fetchPublicPhotos env from to r = Inr ps \<longrightarrow> list_all (\<lambda>p. Photo.deleted_at p = None) ps) \<and>
   (fetchAdminPhotos env trash r = Inr ts \<longrightarrow> list_all (\<lambda>p. Photo.deleted_at p \<noteq> None) ts) \<and>
   (fetchAdminPhotos env active r = Inr as \<longrightarrow> list_all (\<lambda>p. Photo.deleted_at p = None) as) \<and>
   (fetchAdminPhotos env m r = Inr qs \<longrightarrow>
      set qs = photo_of env ` {row \<in> set (Remote.photos r). in_scope m row})"
proof (intro conjI impI)
  assume "fetchPublicPhotos env from to r = Inr ps"
  then have ps: "ps = map (photo_of env)
            (range_rows from to
               (order_rows (filter (\<lambda>row. PhotoRow.deleted_at row = None) (Remote.photos r))))"
    by (simp add: fetchPublicPhotos_Inr_iff)
  have "set (range_rows from to
               (order_rows (filter (\<lambda>row. PhotoRow.deleted_at row = None) (Remote.photos r))))
        \<subseteq> set (order_rows (filter (\<lambda>row. PhotoRow.deleted_at row = None) (Remote.photos r)))"
    unfolding range_rows_def by (meson set_take_subset set_drop_subset subset_trans)
  then show "list_all (\<lambda>p. Photo.deleted_at p = None) ps"
    unfolding ps list_all_iff by (auto simp: set_order_rows photo_of_def)
next
  assume "fetchAdminPhotos env trash r = Inr ts"
  then show "list_all (\<lambda>p. Photo.deleted_at p \<noteq> None) ts"
    by (auto simp: fetchAdminPhotos_Inr_iff list_all_iff set_order_rows in_scope_def photo_of_def)
next
  assume "fetchAdminPhotos env active r = Inr as"
  then show "list_all (\<lambda>p. Photo.deleted_at p = None) as"
    by (auto simp: fetchAdminPhotos_Inr_iff list_all_iff set_order_rows in_scope_def photo_of_def)
next
  assume "fetchAdminPhotos env m r = Inr qs"
  then show "set qs = photo_of env ` {row \<in> set (Remote.photos r). in_scope m row}"
    by (auto simp: fetchAdminPhotos_Inr_iff set_order_rows)
qed

theorem listings_visibility_witness:
  "map Photo.id (projr (fetchPublicPhotos env_ok 0 8 remote_ok)) = [''p2'', ''p1'', ''p4''] \<and>
   list_all (\<lambda>p. Photo.deleted_at p = None) (projr (fetchPublicPhotos env_ok 0 8 remote_ok)) \<and>
   map Photo.id (projr (fetchAdminPhotos env_ok trash remote_ok)) = [''p3''] \<and>
   list_all (\<lambda>p. Photo.deleted_at p \<noteq> None) (projr (fetchAdminPhotos env_ok trash remote_ok)) \<and>
   map Photo.id (projr (fetchAdminPhotos env_ok active remote_ok)) = [''p2'', ''p1'', ''p4''] \<and>
   list_all (\<lambda>p. Photo.deleted_at p = None) (projr (fetchAdminPhotos env_ok active remote_ok)) \<and>
   set (projr (fetchAdminPhotos env_ok trash remote_ok)) =
     photo_of env_ok ` {row \<in> set (Remote.photos remote_ok). in_scope trash row}"
proof -
  have c: "isSupabaseConfigured env_ok" "select_fault env_ok = None"
    by (simp_all add: env_ok_def)
  obtain ps where ps: "fetchPublicPhotos env_ok 0 8 remote_ok = Inr ps"
    by (simp add: fetchPublicPhotos_Inr_iff c)
  obtain ts where ts: "fetchAdminPhotos env_ok trash remote_ok = Inr ts"
    by (simp add: fetchAdminPhotos_Inr_iff c)
  obtain acts where acts: "fetchAdminPhotos env_ok active remote_ok = Inr acts"
    by (simp add: fetchAdminPhotos_Inr_iff c)
  from ps ts acts listings_visibility [of env_ok 0 8 remote_ok ps ts acts trash ts]
  have v: "list_all (\<lambda>p. Photo.deleted_at p = None) ps"
    "list_all (\<lambda>p. Photo.deleted_at p \<noteq> None) ts"
    "list_all (\<lambda>p. Photo.deleted_at p = None) acts"
    "set ts = photo_of env_ok ` {row \<in> set (Remote.photos remote_ok). in_scope trash row}"
    by simp_all
  from ps have 1: "map Photo.id ps = [''p2'', ''p1'', ''p4'']"
    by (simp add: fetchPublicPhotos_Inr_iff remote_ok_def example_row_def range_rows_def
        order_rows_def precedes_def photo_of_def)
  from ts have 2: "map Photo.id ts = [''p3'']"
    by (simp add: fetchAdminPhotos_Inr_iff remote_ok_def example_row_def in_scope_def
        order_rows_def precedes_def photo_of_def)
  from acts have 3: "map Photo.id acts = [''p2'', ''p1'', ''p4'']"
    by (simp add: fetchAdminPhotos_Inr_iff remote_ok_def example_row_def in_scope_def
        order_rows_def precedes_def photo_of_def)
  from v 1 2 3 ps ts acts show ?thesis
    by simp
qed

lemma fetchPublicPhotos_length:
  assumes "fetchPublicPhotos env from to r = Inr ps"
  shows "length ps = min (Suc to - from) (length (active_rows r) - from)"
  using assms
  by (simp add: fetchPublicPhotos_Inr_iff range_rows_def active_rows_def length_order_rows)

lemma fetchPublicPhotos_past_end:
  assumes "isSupabaseConfigured env" "select_fault env = None" "length (active_rows r) \<le> from"
  shows "fetchPublicPhotos env from to r = Inr []"
  using assms
  by (simp add: fetchPublicPhotos_Inr_iff range_rows_def active_rows_def length_order_rows)

lemma load_page_Inr:
  assumes "isSupabaseConfigured env" "hasMore st"
    and "fetchPublicPhotos env (page st * PAGE_SIZE) (page st * PAGE_SIZE + PAGE_SIZE - 1) r = Inr batch"
  shows "HomePage.photos (load_page env r st) = HomePage.photos st @ batch"
    and "hasMore (load_page env r st) \<longleftrightarrow> PAGE_SIZE \<le> length batch"
  using assms by (simp_all add: load_page_def Let_def)

subsection \<open>Pagination\<close>

text \<open>
  C7. \<^verbatim>\<open>fetchPublicPhotos\<close> takes a zero-based range, offset \<open>from\<close> and limit
  \<open>to - from + 1 > 0\<close>, and returns at most that many photos: as many as there are
  active photos from the offset on, up to the limit. The result is a bare list. A batch
  shorter than the limit means that no active photo lies beyond it, and the page after it
  is empty; the feed clears \<open>hasMore\<close> exactly when the batch is shorter than the page size.
  With exactly nine active photos and a limit of nine, page 0 has nine photos and the
  feed keeps \<open>hasMore\<close>; page 1 has none and the feed clears it.
\<close>

theorem pagination_exhaustion:
  "(from \<le> to \<and> fetchPublicPhotos env from to r = Inr ps \<longrightarrow>
      length ps \<le> to - from + 1 \<and>
      length ps = min (to - from + 1) (length (active_rows r) - from) \<and>
      (length ps < to - from + 1 \<longrightarrow>
         length (active_rows r) \<le> from + length ps \<and>
         fetchPublicPhotos env (to + 1) (to + 1 + (to - from)) r = Inr [])) \<and>
   (isSupabaseConfigured env \<and> hasMore st \<and>
    fetchPublicPhotos env (page st * PAGE_SIZE) (page st * PAGE_SIZE + PAGE_SIZE - 1) r = Inr batch \<longrightarrow>
      HomePage.photos (load_page env r st) = HomePage.photos st @ batch \<and>
      (hasMore (load_page env r st) \<longleftrightarrow> \<not> length batch < PAGE_SIZE)) \<and>
   (isSupabaseConfigured env \<and> select_fault env = None \<and> length (active_rows r) = 9 \<longrightarrow>
      (\<exists>batch0. fetchPublicPhotos env 0 8 r = Inr batch0 \<and> length batch0 = 9) \<and>
      hasMore (load_page env r (st\<lparr>page := 0, hasMore := True\<rparr>)) \<and>
      fetchPublicPhotos env 9 17 r = Inr [] \<and>
      \<not> hasMore (load_page env r (st\<lparr>page := 1, hasMore := True\<rparr>)))"
proof (intro conjI impI)
  assume a: "from \<le> to \<and> fetchPublicPhotos env from to r = Inr ps"
  then have len: "length ps = min (Suc to - from) (length (active_rows r) - from)"
    using fetchPublicPhotos_length [of env "from" to r ps] by simp
  from a len show "length ps \<le> to - from + 1"
    by simp
  from a len show "length ps = min (to - from + 1) (length (active_rows r) - from)"
    by (simp add: Suc_diff_le)
  assume short: "length ps < to - from + 1"
  with a len show "length (active_rows r) \<le> from + length ps"
    by (simp add: min_def split: if_splits)
  with a short have "length (active_rows r) \<le> to + 1"
    by linarith
  moreover from a have "isSupabaseConfigured env" "select_fault env = None"
    by (simp_all add: fetchPublicPhotos_Inr_iff)
  ultimately show "fetchPublicPhotos env (to + 1) (to + 1 + (to - from)) r = Inr []"
    by (simp add: fetchPublicPhotos_past_end)
next
  assume a: "isSupabaseConfigured env \<and> hasMore st \<and>
    fetchPublicPhotos env (page st * PAGE_SIZE) (page st * PAGE_SIZE + PAGE_SIZE - 1) r = Inr batch"
  then show "HomePage.photos (load_page env r st) = HomePage.photos st @ batch"
    by (simp add: load_page_Inr)
  from a show "hasMore (load_page env r st) \<longleftrightarrow> \<not> length batch < PAGE_SIZE"
    by (simp add: load_page_Inr not_less)
next
  assume a: "isSupabaseConfigured env \<and> select_fault env = None \<and> length (active_rows r) = 9"
  then obtain batch0 where b0: "fetchPublicPhotos env 0 8 r = Inr batch0"
    by (simp add: fetchPublicPhotos_Inr_iff)
  with a have l0: "length batch0 = 9"
    using fetchPublicPhotos_length [of env 0 8 r batch0] by simp
  with b0 show "\<exists>batch0. fetchPublicPhotos env 0 8 r = Inr batch0 \<and> length batch0 = 9"
    by blast
  from a b0 l0 show "hasMore (load_page env r (st\<lparr>page := 0, hasMore := True\<rparr>))"
    by (simp add: load_page_def PAGE_SIZE_def)
  from a show b1: "fetchPublicPhotos env 9 17 r = Inr []"
    by (simp add: fetchPublicPhotos_past_end)
  from a b1 show "\<not> hasMore (load_page env r (st\<lparr>page := 1, hasMore := True\<rparr>))"
    by (simp add: load_page_def PAGE_SIZE_def)
qed

theorem pagination_exhaustion_witness:
  "length (active_rows remote_nine) = 9 \<and>
   map Photo.id (projr (fetchPublicPhotos env_ok 0 8 remote_nine)) =
     [''p9'', ''p8'', ''p7'', ''p6'', ''p5'', ''p4'', ''p3'', ''p2'', ''p1''] \<and>
   HomePage.photos (load_page env_ok remote_nine home_start) =
     projr (fetchPublicPhotos env_ok 0 8 remote_nine) \<and>
   hasMore (load_page env_ok remote_nine home_start) \<and>
   fetchPublicPhotos env_ok 9 17 remote_nine = Inr [] \<and>
   \<not> hasMore (load_page env_ok remote_nine (home_start\<lparr>page := 1\<rparr>)) \<and>
   length (projr (fetchPublicPhotos env_ok 0 3 remote_ok)) = 3 \<and>
   fetchPublicPhotos env_ok 4 7 remote_ok = Inr []"
proof -
  have c: "isSupabaseConfigured env_ok \<and> select_fault env_ok = None \<and>
      length (active_rows remote_nine) = 9"
    by (simp add: env_ok_def active_rows_def remote_nine_def example_row_def)
  have h: "home_start\<lparr>page := 0, hasMore := True\<rparr> = home_start"
    "home_start\<lparr>page := 1, hasMore := True\<rparr> = home_start\<lparr>page := 1\<rparr>"
    by (simp_all add: home_start_def)
  obtain qs where qs: "fetchPublicPhotos env_ok 0 3 remote_ok = Inr qs"
    by (simp add: fetchPublicPhotos_Inr_iff env_ok_def)
  then have "length qs = 3"
    using fetchPublicPhotos_length [of env_ok 0 3 remote_ok qs]
    by (simp add: active_rows_def remote_ok_def example_row_def)
  with qs have short: "0 \<le> (3::nat) \<and> fetchPublicPhotos env_ok 0 3 remote_ok = Inr qs"
    "length qs < 3 - 0 + 1" "length qs = 3"
    by simp_all
  note T = pagination_exhaustion [of 0 3 env_ok remote_ok qs home_start]
  from T short have "fetchPublicPhotos env_ok (3 + 1) (3 + 1 + (3 - 0)) remote_ok = Inr []"
    by blast
  then have e: "fetchPublicPhotos env_ok 4 7 remote_ok = Inr []"
    by simp
  obtain b0 where b0: "fetchPublicPhotos env_ok 0 8 remote_nine = Inr b0"
    using c by (simp add: fetchPublicPhotos_Inr_iff)
  from b0 c have feed: "isSupabaseConfigured env_ok \<and> hasMore home_start \<and>
    fetchPublicPhotos env_ok (page home_start * PAGE_SIZE)
      (page home_start * PAGE_SIZE + PAGE_SIZE - 1) remote_nine = Inr b0"
    by (simp add: home_start_def PAGE_SIZE_def)
  note N = pagination_exhaustion [of 0 0 env_ok remote_nine "[]" home_start b0]
  from N feed have p: "HomePage.photos (load_page env_ok remote_nine home_start) =
      HomePage.photos home_start @ b0"
    by blast
  from N c h have n: "hasMore (load_page env_ok remote_nine home_start)"
    "fetchPublicPhotos env_ok 9 17 remote_nine = Inr []"
    "\<not> hasMore (load_page env_ok remote_nine (home_start\<lparr>page := 1\<rparr>))"
    by simp_all
  have ids: "map Photo.id (projr (fetchPublicPhotos env_ok 0 8 remote_nine)) =
     [''p9'', ''p8'', ''p7'', ''p6'', ''p5'', ''p4'', ''p3'', ''p2'', ''p1'']"
    by (simp add: fetchPublicPhotos_def getSupabaseClient_def env_ok_def run_select_def
        remote_nine_def example_row_def range_rows_def order_rows_def precedes_def
        mapPhotoRow_def)
  have "HomePage.photos home_start = []"
    by (simp add: home_start_def)
  with c e n ids short qs p b0 show ?thesis
    by simp
qed

section \<open>Writing: lemmas\<close>

lemma storage_upload_Some:
  "storage_upload env path file r = (Some e, r1) \<Longrightarrow> r1 = r"
  by (auto simp: storage_upload_def split: option.splits if_splits)

lemma storage_upload_None:
  "storage_upload env path file r = (None, r1) \<Longrightarrow>
     r1 = r\<lparr>bucket := (bucket r)(path \<mapsto> file)\<rparr> \<and> bucket r path = None"
  by (auto simp: storage_upload_def split: option.splits if_splits)

lemma db_insert_Inl: "db_insert env payload path r = (Inl e, r2) \<Longrightarrow> r2 = r"
  by (auto simp: db_insert_def Let_def split: option.splits if_splits)

lemma storage_remove_photos:
  "Remote.photos (snd (storage_remove env path r)) = Remote.photos r"
  by (simp add: storage_remove_def split: option.splits)

lemma storage_remove_bucket_other:
  "k \<noteq> path \<Longrightarrow> bucket (snd (storage_remove env path r)) k = bucket r k"
  by (simp add: storage_remove_def split: option.splits)

lemma storage_remove_answers:
  "remove_fault env = None \<Longrightarrow> bucket (snd (storage_remove env path r)) path = None"
  by (simp add: storage_remove_def)

lemma storage_remove_rejected:
  "remove_fault env = Some e \<Longrightarrow> storage_remove env path r = (Some e, r)"
  by (simp add: storage_remove_def)

lemma uploadPhoto_upload_fails:
  assumes "isSupabaseConfigured env"
    and "storage_upload env (filePath_of env file userId) file r = (Some e, r1)"
  shows "uploadPhoto env file metadata userId r = (Inl (Error e), r)"
  using assms storage_upload_Some [OF assms(2)]
  by (simp add: uploadPhoto_def getSupabaseClient_configured)

lemma uploadPhoto_insert_fails:
  assumes "isSupabaseConfigured env"
    and "storage_upload env (filePath_of env file userId) file r = (None, r1)"
    and "db_insert env (cleanMetadata metadata) (filePath_of env file userId) r1 = (Inl e, r2)"
  shows "uploadPhoto env file metadata userId r =
           (Inl (Error e), snd (storage_remove env (filePath_of env file userId) r1))"
  using assms db_insert_Inl [OF assms(3)]
  by (simp add: uploadPhoto_def getSupabaseClient_configured)

subsection \<open>Upload and its cleanup\<close>

text \<open>
  C3, as stated: when the row insert fails after a successful upload, no object remains at
  the generated storage key afterward. The code asks the remote to remove the object and
  does not look at the answer: when the remote rejects that removal too, the row-insert
  error is raised and the object stays.
\<close>

theorem uploadPhoto_cleanup_counterexample:
  "bucket remote_ok (filePath_of env_cleanup_fails file_ok ''owner-1'') = None \<and>
   fst (uploadPhoto env_cleanup_fails file_ok metadata_ok ''owner-1'' remote_ok) =
     Inl (Error ''new row violates row-level security policy'') \<and>
   bucket (snd (uploadPhoto env_cleanup_fails file_ok metadata_ok ''owner-1'' remote_ok))
     (filePath_of env_cleanup_fails file_ok ''owner-1'') = Some file_ok"
proof -
  have k: "filePath_of env_cleanup_fails file_ok ''owner-1'' =
      ''owner-1/1708387200000-123e4567-e89b-42d3-a456-426614174000-my-photo.jpg''"
    by (simp add: filePath_of_def env_cleanup_fails_def env_ok_def file_ok_def
        number_toString_def digits.simps sanitizeFilename_def toLowerCase_def
        toLowerCase_unit_def isUpperCase_def safe_char_def)
  show ?thesis
    unfolding k uploadPhoto_def
    by (simp add: k getSupabaseClient_def storage_upload_def db_insert_def storage_remove_def
        env_cleanup_fails_def env_ok_def remote_ok_def)
qed

text \<open>
  C3, amended: when the row insert fails after a successful upload, the repository asks
  the remote to remove the object at the generated storage key and then raises the
  row-insert error, whatever the answer to the removal; no row has been inserted, no other
  object is touched, and when the removal is carried out no object remains at the key
  (when the removal is itself rejected the object stays). When the upload fails, the
  operation raises the upload error and leaves the table and the bucket as they were: no
  row is inserted and no cleanup is performed.
\<close>

theorem uploadPhoto_compensates:
  assumes "isSupabaseConfigured env"
  shows
    "(storage_upload env (filePath_of env file userId) file r = (Some e, r1) \<longrightarrow>
        uploadPhoto env file metadata userId r = (Inl (Error e), r)) \<and>
     (storage_upload env (filePath_of env file userId) file r = (None, r1) \<and>
      db_insert env (cleanMetadata metadata) (filePath_of env file userId) r1 = (Inl e', r2) \<longrightarrow>
        fst (uploadPhoto env file metadata userId r) = Inl (Error e') \<and>
        snd (uploadPhoto env file metadata userId r) =
          snd (storage_remove env (filePath_of env file userId) r1) \<and>
        Remote.photos (snd (uploadPhoto env file metadata userId r)) = Remote.photos r \<and>
        (k \<noteq> filePath_of env file userId \<longrightarrow>
           bucket (snd (uploadPhoto env file metadata userId r)) k = bucket r k) \<and>
        (remove_fault env = None \<longrightarrow>
           bucket (snd (uploadPhoto env file metadata userId r))
             (filePath_of env file userId) = None) \<and>
        (remove_fault env \<noteq> None \<longrightarrow>
           bucket (snd (uploadPhoto env file metadata userId r))
             (filePath_of env file userId) = Some file))"
proof (intro conjI impI)
  assume "storage_upload env (filePath_of env file userId) file r = (Some e, r1)"
  with assms show "uploadPhoto env file metadata userId r = (Inl (Error e), r)"
    by (rule uploadPhoto_upload_fails)
next
  let ?key = "filePath_of env file userId"
  assume a: "storage_upload env ?key file r = (None, r1) \<and>
      db_insert env (cleanMetadata metadata) ?key r1 = (Inl e', r2)"
  with assms have u: "uploadPhoto env file metadata userId r =
      (Inl (Error e'), snd (storage_remove env ?key r1))"
    by (simp add: uploadPhoto_insert_fails)
  from a have r1: "r1 = r\<lparr>bucket := (bucket r)(?key \<mapsto> file)\<rparr>"
    by (blast dest: storage_upload_None)
  from u show "fst (uploadPhoto env file metadata userId r) = Inl (Error e')"
    by simp
  from u show "snd (uploadPhoto env file metadata userId r) = snd (storage_remove env ?key r1)"
    by simp
  from u r1 show "Remote.photos (snd (uploadPhoto env file metadata userId r)) = Remote.photos r"
    by (simp add: storage_remove_photos)
  {
    assume "k \<noteq> ?key"
    with u r1 show "bucket (snd (uploadPhoto env file metadata userId r)) k = bucket r k"
      by (simp add: storage_remove_bucket_other)
  }
  {
    assume "remove_fault env = None"
    with u show "bucket (snd (uploadPhoto env file metadata userId r)) ?key = None"
      by (simp add: storage_remove_answers)
  }
  {
    assume "remove_fault env \<noteq> None"
    then obtain m where "remove_fault env = Some m"
      by auto
    with u r1 show "bucket (snd (uploadPhoto env file metadata userId r)) ?key = Some file"
      by (simp add: storage_remove_rejected)
  }
qed

theorem uploadPhoto_compensates_witness:
  "isSupabaseConfigured env_insert_rejected \<and>
   fst (uploadPhoto env_insert_rejected file_ok metadata_ok ''owner-1'' remote_ok) =
     Inl (Error ''new row violates row-level security policy'') \<and>
   bucket (snd (uploadPhoto env_insert_rejected file_ok metadata_ok ''owner-1'' remote_ok))
     (filePath_of env_insert_rejected file_ok ''owner-1'') = None \<and>
   bucket (snd (uploadPhoto env_insert_rejected file_ok metadata_ok ''owner-1'' remote_ok))
     ''owner-1/1.jpg'' = Some file_ok \<and>
   Remote.photos (snd (uploadPhoto env_insert_rejected file_ok metadata_ok ''owner-1'' remote_ok)) =
     Remote.photos remote_ok \<and>
   isSupabaseConfigured env_cleanup_fails \<and>
   fst (uploadPhoto env_cleanup_fails file_ok metadata_ok ''owner-1'' remote_ok) =
     Inl (Error ''new row violates row-level security policy'') \<and>
   Remote.photos (snd (uploadPhoto env_cleanup_fails file_ok metadata_ok ''owner-1'' remote_ok)) =
     Remote.photos remote_ok \<and>
   isSupabaseConfigured env_upload_rejected \<and>
   uploadPhoto env_upload_rejected file_ok metadata_ok ''owner-1'' remote_ok =
     (Inl (Error ''Payload too large''), remote_ok)"
proof -
  let ?key = "filePath_of env_insert_rejected file_ok ''owner-1''"
  let ?r1 = "remote_ok\<lparr>bucket := (bucket remote_ok)(?key \<mapsto> file_ok)\<rparr>"
  have k: "?key = ''owner-1/1708387200000-123e4567-e89b-42d3-a456-426614174000-my-photo.jpg''"
    by (simp add: filePath_of_def env_insert_rejected_def env_ok_def file_ok_def
        number_toString_def digits.simps sanitizeFilename_def toLowerCase_def
        toLowerCase_unit_def isUpperCase_def safe_char_def)
  have k': "filePath_of env_cleanup_fails file_ok ''owner-1'' = ?key"
    by (simp add: filePath_of_def env_insert_rejected_def env_cleanup_fails_def)
  have c: "isSupabaseConfigured env_insert_rejected" "remove_fault env_insert_rejected = None"
    by (simp_all add: env_insert_rejected_def env_ok_def)
  have free: "bucket remote_ok ?key = None"
    unfolding k by (simp add: remote_ok_def)
  have other: "''owner-1/1.jpg'' \<noteq> ?key" "bucket remote_ok ''owner-1/1.jpg'' = Some file_ok"
    unfolding k by (simp_all add: remote_ok_def)
  have up: "storage_upload env_insert_rejected ?key file_ok remote_ok = (None, ?r1)"
    using free by (simp add: storage_upload_def env_insert_rejected_def env_ok_def)
  have ins: "db_insert env_insert_rejected (cleanMetadata metadata_ok) ?key ?r1 =
      (Inl ''new row violates row-level security policy'', ?r1)"
    by (simp add: db_insert_def env_insert_rejected_def env_ok_def)
  note T = uploadPhoto_compensates [OF c(1), of file_ok "''owner-1''" remote_ok _ ?r1
      metadata_ok "''new row violates row-level security policy''" ?r1 "''owner-1/1.jpg''"]
  from T up ins c other(1) have 1:
    "fst (uploadPhoto env_insert_rejected file_ok metadata_ok ''owner-1'' remote_ok) =
       Inl (Error ''new row violates row-level security policy'')"
    "bucket (snd (uploadPhoto env_insert_rejected file_ok metadata_ok ''owner-1'' remote_ok))
       ?key = None"
    "bucket (snd (uploadPhoto env_insert_rejected file_ok metadata_ok ''owner-1'' remote_ok))
       ''owner-1/1.jpg'' = bucket remote_ok ''owner-1/1.jpg''"
    "Remote.photos (snd (uploadPhoto env_insert_rejected file_ok metadata_ok ''owner-1'' remote_ok)) =
       Remote.photos remote_ok"
    by blast+
  have d: "isSupabaseConfigured env_cleanup_fails" "remove_fault env_cleanup_fails \<noteq> None"
    by (simp_all add: env_cleanup_fails_def env_ok_def)
  have up2: "storage_upload env_cleanup_fails
      (filePath_of env_cleanup_fails file_ok ''owner-1'') file_ok remote_ok = (None, ?r1)"
    unfolding k' using free by (simp add: storage_upload_def env_cleanup_fails_def env_ok_def)
  have ins2: "db_insert env_cleanup_fails (cleanMetadata metadata_ok)
      (filePath_of env_cleanup_fails file_ok ''owner-1'') ?r1 =
      (Inl ''new row violates row-level security policy'', ?r1)"
    by (simp add: db_insert_def env_cleanup_fails_def env_ok_def)
  note U = uploadPhoto_compensates [OF d(1), of file_ok "''owner-1''" remote_ok _ ?r1
      metadata_ok "''new row violates row-level security policy''" ?r1 "''owner-1/1.jpg''"]
  from U up2 ins2 d have 3:
    "fst (uploadPhoto env_cleanup_fails file_ok metadata_ok ''owner-1'' remote_ok) =
       Inl (Error ''new row violates row-level security policy'')"
    "Remote.photos (snd (uploadPhoto env_cleanup_fails file_ok metadata_ok ''owner-1'' remote_ok)) =
       Remote.photos remote_ok"
    by blast+
  have c': "isSupabaseConfigured env_upload_rejected"
    by (simp add: env_upload_rejected_def env_ok_def)
  have up': "storage_upload env_upload_rejected
      (filePath_of env_upload_rejected file_ok ''owner-1'') file_ok remote_ok =
      (Some ''Payload too large'', remote_ok)"
    by (simp add: storage_upload_def env_upload_rejected_def env_ok_def)
  from uploadPhoto_compensates [OF c', of file_ok "''owner-1''" remote_ok
      "''Payload too large''" remote_ok metadata_ok] up'
  have 2: "uploadPhoto env_upload_rejected file_ok metadata_ok ''owner-1'' remote_ok =
     (Inl (Error ''Payload too large''), remote_ok)"
    by blast
  from c d c' 1 2 3 other(2) show ?thesis
    by simp
qed

lemma storage_remove_Some: "storage_remove env path r = (Some m, r1) \<Longrightarrow> r1 = r"
  by (auto simp: storage_remove_def split: option.splits if_splits)

lemma storage_remove_present:
  "remove_fault env = None \<Longrightarrow> bucket r path \<noteq> None \<Longrightarrow>
     storage_remove env path r = (None, r\<lparr>bucket := (bucket r)(path := None)\<rparr>)"
  by (auto simp: storage_remove_def)

lemma storage_remove_absent:
  "remove_fault env = None \<Longrightarrow> bucket r path = None \<Longrightarrow>
     storage_remove env path r = (Some ''Object not found'', r)"
  by (simp add: storage_remove_def)

lemma not_found_test_Object_not_found: "not_found_test ''Object not found''"
  by (simp add: not_found_test_def canonicalize_def)

lemma db_delete_rejected: "delete_fault env = Some m \<Longrightarrow> db_delete env photoId r = (Some m, r)"
  by (simp add: db_delete_def)

lemma db_delete_Some: "db_delete env photoId r = (Some m, r2) \<Longrightarrow> r2 = r \<and> delete_fault env = Some m"
  by (auto simp: db_delete_def split: option.splits)

lemma db_delete_None:
  "db_delete env photoId r = (None, r2) \<Longrightarrow>
     r2 = r\<lparr>Remote.photos := filter (\<lambda>row. PhotoRow.id row \<noteq> photoId) (Remote.photos r)\<rparr>"
  by (auto simp: db_delete_def split: option.splits)

lemma permanentlyDeletePhoto_aborts:
  assumes "isSupabaseConfigured env"
    and "storage_remove env (Photo.image_path photo) r = (Some m, r1)"
    and "\<not> not_found_test m"
  shows "permanentlyDeletePhoto env photo r = (Inl (Error m), r)"
  using assms storage_remove_Some [OF assms(2)]
  by (simp add: permanentlyDeletePhoto_def getSupabaseClient_configured)

lemma permanentlyDeletePhoto_row_phase:
  assumes "isSupabaseConfigured env"
    and "storage_remove env (Photo.image_path photo) r = (se, r1)"
    and "se = None \<or> (\<exists>m. se = Some m \<and> not_found_test m)"
  shows "permanentlyDeletePhoto env photo r =
           (case db_delete env (Photo.id photo) r1 of
              (Some m, r2) \<Rightarrow> (Inl (Error m), r2)
            | (None, r2) \<Rightarrow> (Inr (), r2))"
  using assms
  by (auto simp: permanentlyDeletePhoto_def getSupabaseClient_configured)

subsection \<open>Permanent deletion\<close>

text \<open>
  C4. \<^verbatim>\<open>permanentlyDeletePhoto\<close> first asks for the removal of the object at
  \<open>photo.image_path\<close>. A storage error whose message matches \<^verbatim>\<open>/not found/i\<close> counts as
  success; any other storage error is raised, the row delete is not attempted and the
  table is as before. Then the row is deleted by id, and a failure of that delete is raised
  with its own message. So when a first call has removed the object and failed on the row,
  a second call on the same photo, whose removal the remote answers with a not-found
  error (or with success), does not raise in the removal of the object: its outcome is
  that of the row delete alone.
\<close>

theorem permanentlyDeletePhoto_two_phase:
  assumes "isSupabaseConfigured env"
  shows
    "(storage_remove env (Photo.image_path photo) r = (Some m, r1) \<and> \<not> not_found_test m \<longrightarrow>
        permanentlyDeletePhoto env photo r = (Inl (Error m), r)) \<and>
     (storage_remove env (Photo.image_path photo) r = (se, r1) \<and>
      (se = None \<or> (\<exists>n. se = Some n \<and> not_found_test n)) \<longrightarrow>
        (db_delete env (Photo.id photo) r1 = (Some m', r2) \<longrightarrow>
           permanentlyDeletePhoto env photo r = (Inl (Error m'), r1)) \<and>
        (db_delete env (Photo.id photo) r1 = (None, r2) \<longrightarrow>
           permanentlyDeletePhoto env photo r = (Inr (), r2) \<and>
           Photo.id photo \<notin> PhotoRow.id ` set (Remote.photos r2) \<and>
           (remove_fault env = None \<longrightarrow> bucket r2 (Photo.image_path photo) = None))) \<and>
     (remove_fault env = None \<and> bucket r (Photo.image_path photo) \<noteq> None \<and>
      delete_fault env = Some d \<and> isSupabaseConfigured env' \<and>
      (case remove_fault env' of None \<Rightarrow> True | Some n \<Rightarrow> not_found_test n) \<longrightarrow>
        permanentlyDeletePhoto env photo r =
          (Inl (Error d), r\<lparr>bucket := (bucket r)(Photo.image_path photo := None)\<rparr>) \<and>
        fst (permanentlyDeletePhoto env' photo (snd (permanentlyDeletePhoto env photo r))) =
          (case delete_fault env' of Some n \<Rightarrow> Inl (Error n) | None \<Rightarrow> Inr ()))"
proof (intro conjI impI)
  assume "storage_remove env (Photo.image_path photo) r = (Some m, r1) \<and> \<not> not_found_test m"
  with assms show "permanentlyDeletePhoto env photo r = (Inl (Error m), r)"
    by (blast intro: permanentlyDeletePhoto_aborts)
next
  assume a: "storage_remove env (Photo.image_path photo) r = (se, r1) \<and>
      (se = None \<or> (\<exists>n. se = Some n \<and> not_found_test n))"
  with assms have p: "permanentlyDeletePhoto env photo r =
           (case db_delete env (Photo.id photo) r1 of
              (Some m, r2) \<Rightarrow> (Inl (Error m), r2)
            | (None, r2) \<Rightarrow> (Inr (), r2))"
    by (blast intro: permanentlyDeletePhoto_row_phase)
  {
    assume d: "db_delete env (Photo.id photo) r1 = (Some m', r2)"
    then have "r2 = r1"
      by (blast dest: db_delete_Some)
    with p d show "permanentlyDeletePhoto env photo r = (Inl (Error m'), r1)"
      by simp
  }
  assume d: "db_delete env (Photo.id photo) r1 = (None, r2)"
  with p show "permanentlyDeletePhoto env photo r = (Inr (), r2)"
    by simp
  from d have r2: "r2 = r1\<lparr>Remote.photos :=
      filter (\<lambda>row. PhotoRow.id row \<noteq> Photo.id photo) (Remote.photos r1)\<rparr>"
    by (rule db_delete_None)
  then show "Photo.id photo \<notin> PhotoRow.id ` set (Remote.photos r2)"
    by auto
  assume "remove_fault env = None"
  with a have "bucket r1 (Photo.image_path photo) = None"
    by (auto simp: storage_remove_def split: if_splits)
  with r2 show "bucket r2 (Photo.image_path photo) = None"
    by simp
next
  let ?path = "Photo.image_path photo"
  let ?r1 = "r\<lparr>bucket := (bucket r)(?path := None)\<rparr>"
  assume a: "remove_fault env = None \<and> bucket r ?path \<noteq> None \<and>
      delete_fault env = Some d \<and> isSupabaseConfigured env' \<and>
      (case remove_fault env' of None \<Rightarrow> True | Some n \<Rightarrow> not_found_test n)"
  then have rm: "storage_remove env ?path r = (None, ?r1)"
    by (simp add: storage_remove_present)
  from a have "db_delete env (Photo.id photo) ?r1 = (Some d, ?r1)"
    by (simp add: db_delete_rejected)
  with permanentlyDeletePhoto_row_phase [OF assms rm]
  show first: "permanentlyDeletePhoto env photo r = (Inl (Error d), ?r1)"
    by simp
  have "\<exists>se. storage_remove env' ?path ?r1 = (se, ?r1) \<and>
      (se = None \<or> (\<exists>n. se = Some n \<and> not_found_test n))"
  proof (cases "remove_fault env'")
    case None
    then have "storage_remove env' ?path ?r1 = (Some ''Object not found'', ?r1)"
      by (simp add: storage_remove_absent)
    then show ?thesis
      using not_found_test_Object_not_found by blast
  next
    case (Some n)
    with a have "not_found_test n"
      by simp
    moreover from Some have "storage_remove env' ?path ?r1 = (Some n, ?r1)"
      by (rule storage_remove_rejected)
    ultimately show ?thesis
      by blast
  qed
  then obtain se where se: "storage_remove env' ?path ?r1 = (se, ?r1)"
    "se = None \<or> (\<exists>n. se = Some n \<and> not_found_test n)"
    by blast
  from a have "isSupabaseConfigured env'"
    by simp
  from permanentlyDeletePhoto_row_phase [OF this se]
  have "fst (permanentlyDeletePhoto env' photo ?r1) =
      (case delete_fault env' of Some n \<Rightarrow> Inl (Error n) | None \<Rightarrow> Inr ())"
    by (simp add: db_delete_def split: option.splits)
  with first show "fst (permanentlyDeletePhoto env' photo (snd (permanentlyDeletePhoto env photo r))) =
      (case delete_fault env' of Some n \<Rightarrow> Inl (Error n) | None \<Rightarrow> Inr ())"
    by simp
qed

theorem permanentlyDeletePhoto_two_phase_witness:
  "isSupabaseConfigured env_remove_rejected \<and> \<not> not_found_test ''Failed to fetch'' \<and>
   permanentlyDeletePhoto env_remove_rejected photo_one remote_ok =
     (Inl (Error ''Failed to fetch''), remote_ok) \<and>
   isSupabaseConfigured env_row_delete_rejected \<and>
   bucket remote_ok (Photo.image_path photo_one) = Some file_ok \<and>
   fst (permanentlyDeletePhoto env_row_delete_rejected photo_one remote_ok) =
     Inl (Error ''permission denied for table photos'') \<and>
   bucket (snd (permanentlyDeletePhoto env_row_delete_rejected photo_one remote_ok))
     (Photo.image_path photo_one) = None \<and>
   fst (permanentlyDeletePhoto env_ok photo_one
          (snd (permanentlyDeletePhoto env_row_delete_rejected photo_one remote_ok))) = Inr () \<and>
   fst (permanentlyDeletePhoto env_ok photo_one remote_ok) = Inr () \<and>
   map PhotoRow.id (Remote.photos (snd (permanentlyDeletePhoto env_ok photo_one remote_ok))) =
     [''p2'', ''p3'', ''p4''] \<and>
   bucket (snd (permanentlyDeletePhoto env_ok photo_one remote_ok)) ''owner-1/1.jpg'' = None"
proof -
  have path: "Photo.image_path photo_one = ''owner-1/1.jpg''"
    and pid: "Photo.id photo_one = ''p1''"
    by (simp_all add: photo_one_def photo_of_def example_row_def)
  have c: "isSupabaseConfigured env_remove_rejected" "isSupabaseConfigured env_row_delete_rejected"
    "isSupabaseConfigured env_ok"
    by (simp_all add: env_remove_rejected_def env_row_delete_rejected_def env_ok_def)
  have nf: "\<not> not_found_test ''Failed to fetch''"
    by (simp add: not_found_test_def canonicalize_def)
  have rm: "storage_remove env_remove_rejected (Photo.image_path photo_one) remote_ok =
      (Some ''Failed to fetch'', remote_ok)"
    by (simp add: storage_remove_def env_remove_rejected_def env_ok_def)
  from permanentlyDeletePhoto_two_phase [OF c(1), of photo_one remote_ok "''Failed to fetch''"
      remote_ok] rm nf
  have 1: "permanentlyDeletePhoto env_remove_rejected photo_one remote_ok =
     (Inl (Error ''Failed to fetch''), remote_ok)"
    by blast
  have pre: "remove_fault env_row_delete_rejected = None \<and>
      bucket remote_ok (Photo.image_path photo_one) \<noteq> None \<and>
      delete_fault env_row_delete_rejected = Some ''permission denied for table photos'' \<and>
      isSupabaseConfigured env_ok \<and>
      (case remove_fault env_ok of None \<Rightarrow> True | Some n \<Rightarrow> not_found_test n)"
    by (simp add: path env_row_delete_rejected_def env_ok_def remote_ok_def)
  note T = permanentlyDeletePhoto_two_phase [OF c(2), of photo_one remote_ok _ _ _ _ _
      "''permission denied for table photos''" env_ok]
  from T pre have 2:
    "permanentlyDeletePhoto env_row_delete_rejected photo_one remote_ok =
       (Inl (Error ''permission denied for table photos''),
        remote_ok\<lparr>bucket := (bucket remote_ok)(Photo.image_path photo_one := None)\<rparr>)"
    "fst (permanentlyDeletePhoto env_ok photo_one
          (snd (permanentlyDeletePhoto env_row_delete_rejected photo_one remote_ok))) =
       (case delete_fault env_ok of Some n \<Rightarrow> Inl (Error n) | None \<Rightarrow> Inr ())"
    by blast+
  have b: "bucket remote_ok (Photo.image_path photo_one) = Some file_ok"
    by (simp add: path remote_ok_def)
  let ?r1 = "remote_ok\<lparr>bucket := (bucket remote_ok)(Photo.image_path photo_one := None)\<rparr>"
  let ?r2 = "?r1\<lparr>Remote.photos :=
      filter (\<lambda>row. PhotoRow.id row \<noteq> Photo.id photo_one) (Remote.photos ?r1)\<rparr>"
  have f: "remove_fault env_ok = None" "delete_fault env_ok = None"
    by (simp_all add: env_ok_def)
  from f(1) b have rm_ok: "storage_remove env_ok (Photo.image_path photo_one) remote_ok = (None, ?r1)"
    by (simp add: storage_remove_def)
  from f(2) have del_ok: "db_delete env_ok (Photo.id photo_one) ?r1 = (None, ?r2)"
    by (simp add: db_delete_def)
  note S = permanentlyDeletePhoto_two_phase [OF c(3), of photo_one remote_ok _ ?r1 None _ ?r2]
  from S rm_ok del_ok f have 3:
    "permanentlyDeletePhoto env_ok photo_one remote_ok = (Inr (), ?r2)"
    "bucket ?r2 (Photo.image_path photo_one) = None"
    by blast+
  have ids: "map PhotoRow.id (Remote.photos ?r2) = [''p2'', ''p3'', ''p4'']"
    by (simp add: pid remote_ok_def example_row_def)
  from c nf 1 2 b f 3 ids show ?thesis
    by (simp add: path)
qed

subsection \<open>Row updates\<close>

lemma map_unmatched:
  "photoId \<notin> PhotoRow.id ` set rows \<Longrightarrow>
     map (\<lambda>row. if PhotoRow.id row = photoId then f row else row) rows = rows"
  by (induction rows) auto

lemma filter_unmatched:
  "photoId \<notin> PhotoRow.id ` set rows \<Longrightarrow> filter (\<lambda>row. PhotoRow.id row = photoId) rows = []"
  by (induction rows) auto

lemma db_update_answers:
  "update_fault env = None \<Longrightarrow>
     db_update env values photoId r =
       (Inr (map (\<lambda>row. touch_updated_at env (values row)) (rows_with_id photoId r)),
        r\<lparr>Remote.photos :=
            map (\<lambda>row. if PhotoRow.id row = photoId then touch_updated_at env (values row) else row)
              (Remote.photos r)\<rparr>)"
  by (simp add: db_update_def rows_with_id_def)

lemma db_update_rejected:
  "update_fault env = Some m \<Longrightarrow> db_update env values photoId r = (Inl m, r)"
  by (simp add: db_update_def)

lemma updatePhotoMetadata_unfold:
  "updatePhotoMetadata env photoId metadata r =
     (if \<not> isSupabaseConfigured env
      then (Inl (Error ''Supabase is not configured. Set VITE_SUPABASE_URL and VITE_SUPABASE_ANON_KEY.''), r)
      else
        (case update_fault env of
           Some m \<Rightarrow> (Inl (Error m), r)
         | None \<Rightarrow>
             (case rows_with_id photoId r of
                [row] \<Rightarrow>
                  (Inr (photo_of env (written_by_update env metadata row)),
                   r\<lparr>Remote.photos :=
                       map (\<lambda>row. if PhotoRow.id row = photoId
                                  then written_by_update env metadata row else row)
                         (Remote.photos r)\<rparr>)
              | _ \<Rightarrow> (Inl (Error ''JSON object requested, multiple (or no) rows returned''), r))))"
proof (cases "isSupabaseConfigured env")
  case False
  then show ?thesis
    by (simp add: updatePhotoMetadata_def getSupabaseClient_def)
next
  case True
  show ?thesis
  proof (cases "update_fault env")
    case (Some m)
    with True show ?thesis
      by (simp add: updatePhotoMetadata_def getSupabaseClient_configured db_update_single_def
          db_update_rejected)
  next
    case None
    have w: "touch_updated_at env
        (row\<lparr> PhotoRow.title := MetadataPayload.title (cleanMetadata metadata),
              PhotoRow.caption := MetadataPayload.caption (cleanMetadata metadata),
              PhotoRow.tags := Some (MetadataPayload.tags (cleanMetadata metadata)),
              PhotoRow.shot_date := MetadataPayload.shot_date (cleanMetadata metadata) \<rparr>) =
        written_by_update env metadata row" for row
      by (simp add: touch_updated_at_def written_by_update_def)
    from True None show ?thesis
      by (simp add: updatePhotoMetadata_def getSupabaseClient_configured db_update_single_def
          db_update_answers Let_def w mapPhotoRow_configured split: list.splits)
  qed
qed

lemma written_by_update_frame:
  "PhotoRow.id (written_by_update env metadata row) = PhotoRow.id row"
  "PhotoRow.image_path (written_by_update env metadata row) = PhotoRow.image_path row"
  "PhotoRow.deleted_at (written_by_update env metadata row) = PhotoRow.deleted_at row"
  "PhotoRow.created_at (written_by_update env metadata row) = PhotoRow.created_at row"
  by (simp_all add: written_by_update_def)

lemma map_frame:
  assumes "\<And>row. g (f row) = g row"
  shows "map g (map (\<lambda>row. if P row then f row else row) rows) = map g rows"
  using assms by (induction rows) auto

text \<open>
  C8. \<^verbatim>\<open>updatePhotoMetadata\<close> writes the columns \<open>title\<close>, \<open>caption\<close>, \<open>tags\<close> and
  \<open>shot_date\<close> of the row with the given id, with the input normalized as for an upload;
  \<open>image_path\<close> and \<open>deleted_at\<close> of every row are as before, and so are \<open>id\<close>,
  \<open>created_at\<close>, every other row and the bucket. On success the photo of the rewritten
  row is returned. When no row has the id, an error is raised and nothing changes.
\<close>

theorem updatePhotoMetadata_frame:
  "map PhotoRow.image_path (Remote.photos (snd (updatePhotoMetadata env photoId metadata r))) =
     map PhotoRow.image_path (Remote.photos r) \<and>
   map PhotoRow.deleted_at (Remote.photos (snd (updatePhotoMetadata env photoId metadata r))) =
     map PhotoRow.deleted_at (Remote.photos r) \<and>
   map PhotoRow.id (Remote.photos (snd (updatePhotoMetadata env photoId metadata r))) =
     map PhotoRow.id (Remote.photos r) \<and>
   map PhotoRow.created_at (Remote.photos (snd (updatePhotoMetadata env photoId metadata r))) =
     map PhotoRow.created_at (Remote.photos r) \<and>
   bucket (snd (updatePhotoMetadata env photoId metadata r)) = bucket r \<and>
   (fst (updatePhotoMetadata env photoId metadata r) = Inr photo \<longrightarrow>
      (\<exists>row. rows_with_id photoId r = [row] \<and>
         photo = photo_of env (written_by_update env metadata row)) \<and>
      Remote.photos (snd (updatePhotoMetadata env photoId metadata r)) =
        map (\<lambda>row. if PhotoRow.id row = photoId then written_by_update env metadata row else row)
          (Remote.photos r)) \<and>
   (photoId \<notin> PhotoRow.id ` set (Remote.photos r) \<longrightarrow>
      (\<exists>e. fst (updatePhotoMetadata env photoId metadata r) = Inl e) \<and>
      snd (updatePhotoMetadata env photoId metadata r) = r)"
proof -
  let ?new = "map (\<lambda>row. if PhotoRow.id row = photoId then written_by_update env metadata row
      else row) (Remote.photos r)"
  let ?r' = "snd (updatePhotoMetadata env photoId metadata r)"
  have shape: "?r' = r \<or> ?r' = r\<lparr>Remote.photos := ?new\<rparr>"
    by (simp add: updatePhotoMetadata_unfold split: option.splits list.splits)
  have f: "map PhotoRow.image_path ?new = map PhotoRow.image_path (Remote.photos r)"
    "map PhotoRow.deleted_at ?new = map PhotoRow.deleted_at (Remote.photos r)"
    "map PhotoRow.id ?new = map PhotoRow.id (Remote.photos r)"
    "map PhotoRow.created_at ?new = map PhotoRow.created_at (Remote.photos r)"
    by (rule map_frame, rule written_by_update_frame)+
  from shape f have 1:
    "map PhotoRow.image_path (Remote.photos ?r') = map PhotoRow.image_path (Remote.photos r)"
    "map PhotoRow.deleted_at (Remote.photos ?r') = map PhotoRow.deleted_at (Remote.photos r)"
    "map PhotoRow.id (Remote.photos ?r') = map PhotoRow.id (Remote.photos r)"
    "map PhotoRow.created_at (Remote.photos ?r') = map PhotoRow.created_at (Remote.photos r)"
    "bucket ?r' = bucket r"
    by auto
  have 2: "fst (updatePhotoMetadata env photoId metadata r) = Inr photo \<longrightarrow>
      (\<exists>row. rows_with_id photoId r = [row] \<and>
         photo = photo_of env (written_by_update env metadata row)) \<and>
      Remote.photos ?r' = ?new"
    by (auto simp: updatePhotoMetadata_unfold split: option.splits list.splits if_splits)
  have 3: "photoId \<notin> PhotoRow.id ` set (Remote.photos r) \<longrightarrow>
      (\<exists>e. fst (updatePhotoMetadata env photoId metadata r) = Inl e) \<and> ?r' = r"
  proof
    assume "photoId \<notin> PhotoRow.id ` set (Remote.photos r)"
    then have "rows_with_id photoId r = []"
      unfolding rows_with_id_def by (rule filter_unmatched)
    then show "(\<exists>e. fst (updatePhotoMetadata env photoId metadata r) = Inl e) \<and> ?r' = r"
      by (simp add: updatePhotoMetadata_unfold split: option.splits)
  qed
  from 1 2 3 show ?thesis
    by blast
qed

theorem updatePhotoMetadata_frame_witness:
  "fst (updatePhotoMetadata env_ok ''p3'' metadata_ok remote_ok) =
     Inr (photo_of env_ok
       (written_by_update env_ok metadata_ok
          (example_row ''3'' ''2024-04-10'' ''2024-04-11T08:00:00+00:00''
             (Some ''2024-05-01T00:00:00.000Z'')))) \<and>
   map PhotoRow.title (Remote.photos (snd (updatePhotoMetadata env_ok ''p3'' metadata_ok remote_ok))) =
     [''Photo 1'', ''Photo 2'', ''Dawn'', ''Photo 4''] \<and>
   map PhotoRow.deleted_at (Remote.photos (snd (updatePhotoMetadata env_ok ''p3'' metadata_ok remote_ok))) =
     [None, None, Some ''2024-05-01T00:00:00.000Z'', None] \<and>
   ''p404'' \<notin> PhotoRow.id ` set (Remote.photos remote_ok) \<and>
   (\<exists>e. fst (updatePhotoMetadata env_ok ''p404'' metadata_ok remote_ok) = Inl e) \<and>
   snd (updatePhotoMetadata env_ok ''p404'' metadata_ok remote_ok) = remote_ok"
proof -
  have ok: "fst (updatePhotoMetadata env_ok ''p3'' metadata_ok remote_ok) =
     Inr (photo_of env_ok
       (written_by_update env_ok metadata_ok
          (example_row ''3'' ''2024-04-10'' ''2024-04-11T08:00:00+00:00''
             (Some ''2024-05-01T00:00:00.000Z''))))"
    by (simp add: updatePhotoMetadata_unfold env_ok_def rows_with_id_def remote_ok_def
        example_row_def)
  have miss: "''p404'' \<notin> PhotoRow.id ` set (Remote.photos remote_ok)"
    by (simp add: remote_ok_def example_row_def)
  note T = updatePhotoMetadata_frame [of env_ok "''p3''" metadata_ok remote_ok]
  from T ok have rows:
    "Remote.photos (snd (updatePhotoMetadata env_ok ''p3'' metadata_ok remote_ok)) =
        map (\<lambda>row. if PhotoRow.id row = ''p3'' then written_by_update env_ok metadata_ok row else row)
          (Remote.photos remote_ok)"
    by blast
  have titles: "map PhotoRow.title
      (map (\<lambda>row. if PhotoRow.id row = ''p3'' then written_by_update env_ok metadata_ok row else row)
          (Remote.photos remote_ok)) = [''Photo 1'', ''Photo 2'', ''Dawn'', ''Photo 4'']"
    by (simp add: remote_ok_def example_row_def written_by_update_def cleanMetadata_def
        metadata_ok_def trim_def isWhiteSpace_def)
  from T have "map PhotoRow.deleted_at
      (Remote.photos (snd (updatePhotoMetadata env_ok ''p3'' metadata_ok remote_ok))) =
     map PhotoRow.deleted_at (Remote.photos remote_ok)"
    by blast
  then have del: "map PhotoRow.deleted_at
      (Remote.photos (snd (updatePhotoMetadata env_ok ''p3'' metadata_ok remote_ok))) =
     [None, None, Some ''2024-05-01T00:00:00.000Z'', None]"
    by (simp add: remote_ok_def example_row_def)
  from updatePhotoMetadata_frame [of env_ok "''p404''" metadata_ok remote_ok] miss
  have "(\<exists>e. fst (updatePhotoMetadata env_ok ''p404'' metadata_ok remote_ok) = Inl e) \<and>
      snd (updatePhotoMetadata env_ok ''p404'' metadata_ok remote_ok) = remote_ok"
    by blast
  with ok rows titles del miss show ?thesis
    by simp
qed

lemma softDeletePhoto_answers:
  assumes "isSupabaseConfigured env" "update_fault env = None"
  shows "softDeletePhoto env photoId r =
    (Inr (),
     r\<lparr>Remote.photos :=
         map (\<lambda>row. if PhotoRow.id row = photoId
                    then row\<lparr>PhotoRow.updated_at := now env,
                             PhotoRow.deleted_at := Some (toISOString_now env)\<rparr>
                    else row)
           (Remote.photos r)\<rparr>)"
  using assms
  by (simp add: softDeletePhoto_def getSupabaseClient_configured db_update_answers
      touch_updated_at_def)

lemma restorePhoto_answers:
  assumes "isSupabaseConfigured env" "update_fault env = None"
  shows "restorePhoto env photoId r =
    (Inr (),
     r\<lparr>Remote.photos :=
         map (\<lambda>row. if PhotoRow.id row = photoId
                    then row\<lparr>PhotoRow.updated_at := now env, PhotoRow.deleted_at := None\<rparr>
                    else row)
           (Remote.photos r)\<rparr>)"
  using assms
  by (simp add: restorePhoto_def getSupabaseClient_configured db_update_answers
      touch_updated_at_def)

lemma softDelete_then_restore_rows:
  "map (\<lambda>row. if PhotoRow.id row = photoId
              then row\<lparr>PhotoRow.updated_at := u2, PhotoRow.deleted_at := None\<rparr> else row)
     (map (\<lambda>row. if PhotoRow.id row = photoId
                 then row\<lparr>PhotoRow.updated_at := u1, PhotoRow.deleted_at := Some t\<rparr> else row)
        rows) =
   map (\<lambda>row. if PhotoRow.id row = photoId
              then row\<lparr>PhotoRow.updated_at := u2, PhotoRow.deleted_at := None\<rparr> else row)
     rows"
  by (induction rows) auto

subsection \<open>Trash and restore\<close>

text \<open>
  C9, as stated: for every existing photo id, \<^verbatim>\<open>softDeletePhoto\<close> followed by
  \<^verbatim>\<open>restorePhoto\<close> leaves the row as it was, except possibly \<open>updated_at\<close>. For a photo
  that is already in the trash it does not: the row had a \<open>deleted_at\<close> and has none
  afterward.
\<close>

theorem softDelete_restore_counterexample:
  "PhotoRow.id (Remote.photos remote_ok ! 2) = ''p3'' \<and>
   PhotoRow.deleted_at (Remote.photos remote_ok ! 2) = Some ''2024-05-01T00:00:00.000Z'' \<and>
   fst (softDeletePhoto env_ok ''p3'' remote_ok) = Inr () \<and>
   fst (restorePhoto env_later ''p3'' (snd (softDeletePhoto env_ok ''p3'' remote_ok))) = Inr () \<and>
   PhotoRow.id
     (Remote.photos (snd (restorePhoto env_later ''p3'' (snd (softDeletePhoto env_ok ''p3'' remote_ok))))
        ! 2) = ''p3'' \<and>
   PhotoRow.deleted_at
     (Remote.photos (snd (restorePhoto env_later ''p3'' (snd (softDeletePhoto env_ok ''p3'' remote_ok))))
        ! 2) = None"
  by (simp add: softDeletePhoto_def restorePhoto_def getSupabaseClient_def db_update_def
      touch_updated_at_def env_ok_def env_later_def remote_ok_def example_row_def)

text \<open>
  C9, amended: for every existing photo id whose photo is active (\<open>deleted_at\<close> null),
  \<^verbatim>\<open>softDeletePhoto\<close> followed by \<^verbatim>\<open>restorePhoto\<close> leaves the row as it was, except possibly
  \<open>updated_at\<close>. For any id, both calls succeed when the remote accepts the updates, each
  writes only \<open>deleted_at\<close> (the trigger refreshes \<open>updated_at\<close>), the first sets it to the
  current time and the second to null; every other row and the bucket are untouched.
\<close>

theorem softDelete_restore_round_trip:
  assumes "isSupabaseConfigured env" "update_fault env = None"
    and "isSupabaseConfigured env'" "update_fault env' = None"
  shows
    "fst (softDeletePhoto env photoId r) = Inr () \<and>
     Remote.photos (snd (softDeletePhoto env photoId r)) =
       map (\<lambda>row. if PhotoRow.id row = photoId
                  then row\<lparr>PhotoRow.updated_at := now env,
                           PhotoRow.deleted_at := Some (toISOString_now env)\<rparr>
                  else row)
         (Remote.photos r) \<and>
     fst (restorePhoto env' photoId (snd (softDeletePhoto env photoId r))) = Inr () \<and>
     Remote.photos (snd (restorePhoto env' photoId (snd (softDeletePhoto env photoId r)))) =
       map (\<lambda>row. if PhotoRow.id row = photoId
                  then row\<lparr>PhotoRow.updated_at := now env', PhotoRow.deleted_at := None\<rparr>
                  else row)
         (Remote.photos r) \<and>
     bucket (snd (restorePhoto env' photoId (snd (softDeletePhoto env photoId r)))) = bucket r \<and>
     (i < length (Remote.photos r) \<and> PhotoRow.id (Remote.photos r ! i) = photoId \<and>
      PhotoRow.deleted_at (Remote.photos r ! i) = None \<longrightarrow>
        Remote.photos (snd (restorePhoto env' photoId (snd (softDeletePhoto env photoId r)))) ! i =
          (Remote.photos r ! i)\<lparr>PhotoRow.updated_at := now env'\<rparr>)"
proof -
  let ?r1 = "snd (softDeletePhoto env photoId r)"
  let ?r2 = "snd (restorePhoto env' photoId ?r1)"
  note s = softDeletePhoto_answers [OF assms(1,2), of photoId r]
  note t = restorePhoto_answers [OF assms(3,4), of photoId ?r1]
  from s t have rows2: "Remote.photos ?r2 =
       map (\<lambda>row. if PhotoRow.id row = photoId
                  then row\<lparr>PhotoRow.updated_at := now env', PhotoRow.deleted_at := None\<rparr>
                  else row)
         (Remote.photos r)"
    by (simp add: softDelete_then_restore_rows)
  have "Remote.photos ?r2 ! i = (Remote.photos r ! i)\<lparr>PhotoRow.updated_at := now env'\<rparr>"
    if "i < length (Remote.photos r)" "PhotoRow.id (Remote.photos r ! i) = photoId"
      "PhotoRow.deleted_at (Remote.photos r ! i) = None"
    using that unfolding rows2 by simp
  with s t rows2 show ?thesis
    by simp
qed

theorem softDelete_restore_round_trip_witness:
  "isSupabaseConfigured env_ok \<and> update_fault env_ok = None \<and>
   isSupabaseConfigured env_later \<and> update_fault env_later = None \<and>
   PhotoRow.id (Remote.photos remote_ok ! 1) = ''p2'' \<and>
   PhotoRow.deleted_at (Remote.photos remote_ok ! 1) = None \<and>
   PhotoRow.deleted_at (Remote.photos (snd (softDeletePhoto env_ok ''p2'' remote_ok)) ! 1) =
     Some ''2024-02-20T10:00:00.000Z'' \<and>
   Remote.photos (snd (restorePhoto env_later ''p2'' (snd (softDeletePhoto env_ok ''p2'' remote_ok)))) ! 1 =
     (Remote.photos remote_ok ! 1)\<lparr>PhotoRow.updated_at := ''2024-02-21T09:30:01+00:00''\<rparr>"
proof -
  have c: "isSupabaseConfigured env_ok" "update_fault env_ok = None"
    "isSupabaseConfigured env_later" "update_fault env_later = None"
    by (simp_all add: env_ok_def env_later_def)
  have pre: "1 < length (Remote.photos remote_ok) \<and>
      PhotoRow.id (Remote.photos remote_ok ! 1) = ''p2'' \<and>
      PhotoRow.deleted_at (Remote.photos remote_ok ! 1) = None"
    by (simp add: remote_ok_def example_row_def)
  note T = softDelete_restore_round_trip [OF c, of "''p2''" remote_ok 1]
  from T pre have restored:
    "Remote.photos (snd (restorePhoto env_later ''p2'' (snd (softDeletePhoto env_ok ''p2'' remote_ok)))) ! 1 =
     (Remote.photos remote_ok ! 1)\<lparr>PhotoRow.updated_at := now env_later\<rparr>"
    by blast
  from T have "Remote.photos (snd (softDeletePhoto env_ok ''p2'' remote_ok)) =
       map (\<lambda>row. if PhotoRow.id row = ''p2''
                  then row\<lparr>PhotoRow.updated_at := now env_ok,
                           PhotoRow.deleted_at := Some (toISOString_now env_ok)\<rparr>
                  else row)
         (Remote.photos remote_ok)"
    by blast
  then have trashed:
    "PhotoRow.deleted_at (Remote.photos (snd (softDeletePhoto env_ok ''p2'' remote_ok)) ! 1) =
     Some ''2024-02-20T10:00:00.000Z''"
    by (simp add: remote_ok_def example_row_def env_ok_def)
  have "now env_later = ''2024-02-21T09:30:01+00:00''"
    by (simp add: env_later_def)
  with c pre restored trashed show ?thesis
    by simp
qed

subsection \<open>An id that matches no row\<close>

text \<open>
  C10. When no row has the given id, and the client is configured and the remote accepts
  the request, \<^verbatim>\<open>softDeletePhoto\<close> and \<^verbatim>\<open>restorePhoto\<close> return without an error and
  change nothing: an update that matches no row is not a failure. \<^verbatim>\<open>updatePhotoMetadata\<close>
  in the same situation raises an error, since it asks for exactly one row back.
\<close>

theorem unmatched_id_is_silent:
  assumes "isSupabaseConfigured env" "update_fault env = None"
    and "photoId \<notin> PhotoRow.id ` set (Remote.photos r)"
  shows "softDeletePhoto env photoId r = (Inr (), r) \<and>
         restorePhoto env photoId r = (Inr (), r) \<and>
         updatePhotoMetadata env photoId metadata r =
           (Inl (Error ''JSON object requested, multiple (or no) rows returned''), r)"
proof -
  from assms(3) have "rows_with_id photoId r = []"
    unfolding rows_with_id_def by (rule filter_unmatched)
  with assms(1,2) have "updatePhotoMetadata env photoId metadata r =
           (Inl (Error ''JSON object requested, multiple (or no) rows returned''), r)"
    by (simp add: updatePhotoMetadata_unfold)
  moreover from assms have "softDeletePhoto env photoId r = (Inr (), r)"
    by (simp add: softDeletePhoto_answers map_unmatched)
  moreover from assms have "restorePhoto env photoId r = (Inr (), r)"
    by (simp add: restorePhoto_answers map_unmatched)
  ultimately show ?thesis
    by simp
qed

theorem unmatched_id_is_silent_witness:
  "isSupabaseConfigured env_ok \<and> update_fault env_ok = None \<and>
   ''p404'' \<notin> PhotoRow.id ` set (Remote.photos remote_ok) \<and>
   softDeletePhoto env_ok ''p404'' remote_ok = (Inr (), remote_ok) \<and>
   restorePhoto env_ok ''p404'' remote_ok = (Inr (), remote_ok) \<and>
   updatePhotoMetadata env_ok ''p404'' metadata_ok remote_ok =
     (Inl (Error ''JSON object requested, multiple (or no) rows returned''), remote_ok)"
proof -
  have c: "isSupabaseConfigured env_ok" "update_fault env_ok = None"
    by (simp_all add: env_ok_def)
  have miss: "''p404'' \<notin> PhotoRow.id ` set (Remote.photos remote_ok)"
    by (simp add: remote_ok_def example_row_def)
  from unmatched_id_is_silent [OF c miss, of metadata_ok] c miss show ?thesis
    by simp
qed

end
